theory Spec2Isabelle
  imports Main "HOL-Library.Sublist" "HOL-Library.Multiset"
begin

section \<open>Strings\<close>

text \<open>
  JavaScript strings are modelled as \<^typ>\<open>string\<close>. Case conversion is the ASCII one:
  \<open>toLowerCase\<close> maps \<open>A\<close>..\<open>Z\<close> to \<open>a\<close>..\<open>z\<close> and leaves every other character alone,
  \<open>toUpperCase\<close> the reverse. File names and queries outside ASCII are not covered.
\<close>

definition upperLetters :: "char list" where
  "upperLetters = ''ABCDEFGHIJKLMNOPQRSTUVWXYZ''"

definition lowerLetters :: "char list" where
  "lowerLetters = ''abcdefghijklmnopqrstuvwxyz''"

definition isUpperChar :: "char \<Rightarrow> bool" where
  "isUpperChar c = (c \<in> set upperLetters)"

definition lowerChar :: "char \<Rightarrow> char" where
  "lowerChar c = (case map_of (zip upperLetters lowerLetters) c of Some l \<Rightarrow> l | None \<Rightarrow> c)"

definition upperChar :: "char \<Rightarrow> char" where
  "upperChar c = (case map_of (zip lowerLetters upperLetters) c of Some u \<Rightarrow> u | None \<Rightarrow> c)"

definition toLowerCase :: "string \<Rightarrow> string" where
  "toLowerCase s = map lowerChar s"

definition toUpperCase :: "string \<Rightarrow> string" where
  "toUpperCase s = map upperChar s"

text \<open>\<open>startsWith s k\<close> is \<open>s.startsWith(k)\<close>.\<close>

fun startsWith :: "string \<Rightarrow> string \<Rightarrow> bool" where
  "startsWith s [] = True"
| "startsWith [] (k # ks) = False"
| "startsWith (c # cs) (k # ks) = (c = k \<and> startsWith cs ks)"

text \<open>\<open>str_includes s k\<close> is \<open>s.includes(k)\<close>: \<open>k\<close> occurs in \<open>s\<close> at some position.\<close>

fun str_includes :: "string \<Rightarrow> string \<Rightarrow> bool" where
  "str_includes [] k = (k = [])"
| "str_includes (c # cs) k = (startsWith (c # cs) k \<or> str_includes cs k)"

text \<open>\<open>endsWith s k\<close> is \<open>s.endsWith(k)\<close>.\<close>

definition endsWith :: "string \<Rightarrow> string \<Rightarrow> bool" where
  "endsWith s k = (length k \<le> length s \<and> drop (length s - length k) s = k)"

text \<open>
  White space of \<open>String.prototype.trim\<close> within ASCII: tab, line feed, vertical tab,
  form feed, carriage return and space.
\<close>

definition isSpaceChar :: "char \<Rightarrow> bool" where
  "isSpaceChar c = (c \<in> set [CHR 0x09, CHR 0x0A, CHR 0x0B, CHR 0x0C, CHR 0x0D, CHR '' ''])"

definition trim :: "string \<Rightarrow> string" where
  "trim s = rev (dropWhile isSpaceChar (rev (dropWhile isSpaceChar s)))"

section \<open>The icon scanner (class ComposeonIconScanner)\<close>

subsection \<open>Categories\<close>

text \<open>
  \<open>this.categoryKeywords\<close>, in the order of the object literal, which is the order
  \<open>Object.entries\<close> enumerates.
\<close>

definition categoryKeywords :: "(string \<times> string list) list" where
  "categoryKeywords =
   [(''ai'',
      [''openai'', ''claude'', ''anthropic'', ''gemini'', ''chatgpt'', ''gpt'', ''midjourney'',
       ''stability'', ''huggingface'', ''deepseek'', ''cohere'', ''replicate'', ''runway'',
       ''perplexity'', ''character'', ''ai21'', ''ai2'', ''ai302'', ''ai360'', ''aihubmix'',
       ''aimass'', ''aionlabs'', ''aistudio'', ''akashchat'', ''alephalpha'', ''baai'',
       ''chatglm'', ''deepai'', ''deepcogito'', ''deepinfra'', ''deepmind'', ''doubao'',
       ''dreammachine'', ''elevenx'', ''essentialai'', ''glmv'', ''goose'']),
    (''cloud'',
      [''aws'', ''azure'', ''google'', ''googlecloud'', ''gcp'', ''digitalocean'', ''cloudflare'',
       ''heroku'', ''netlify'', ''vercel'', ''railway'', ''render'', ''supabase'', ''planetscale'',
       ''alibaba'', ''alibabacloud'', ''baidu'', ''baiducloud'', ''tencent'', ''huawei'',
       ''oracle'', ''ibm'', ''linode'', ''vultr'', ''hetzner'', ''baseten'', ''crusoe'',
       ''anyscale'', ''centml'', ''fireworks'', ''featherless'', ''friendli'']),
    (''dev'',
      [''github'', ''gitlab'', ''bitbucket'', ''vscode'', ''cursor'', ''jetbrains'', ''sublime'',
       ''atom'', ''vim'', ''docker'', ''kubernetes'', ''jenkins'', ''circleci'', ''travis'',
       ''copilot'', ''githubcopilot'', ''cline'', ''codeflicker'', ''codegeex'', ''commanda'',
       ''copilotkit'', ''greptile'', ''colab'', ''gradio'']),
    (''framework'',
      [''react'', ''vue'', ''angular'', ''svelte'', ''nextjs'', ''nuxt'', ''gatsby'',
       ''nodejs'', ''python'', ''javascript'', ''typescript'', ''java'', ''golang'', ''rust'',
       ''php'', ''ruby'', ''swift'', ''kotlin'', ''dart'', ''flutter'', ''unity'', ''unreal'']),
    (''design'',
      [''figma'', ''adobe'', ''sketch'', ''canva'', ''framer'', ''invision'', ''principle'',
       ''dribbble'', ''behance'', ''unsplash'', ''pexels'', ''clipdrop'', ''miro'', ''whimsical'',
       ''lucidchart'', ''webflow'']),
    (''social'',
      [''linkedin'', ''twitter'', ''facebook'', ''instagram'', ''youtube'', ''tiktok'',
       ''discord'', ''slack'', ''telegram'', ''whatsapp'', ''zoom'', ''teams'', ''meet'',
       ''webex'', ''skype'', ''twitch'', ''spotify'', ''netflix'']),
    (''database'',
      [''mongodb'', ''postgresql'', ''mysql'', ''redis'', ''elasticsearch'', ''cassandra'',
       ''neo4j'', ''sqlite'', ''snowflake'', ''databricks'', ''clickhouse'', ''cockroachdb'']),
    (''browser'',
      [''chrome'', ''firefox'', ''safari'', ''edge'', ''opera'', ''brave'']),
    (''crypto'',
      [''bitcoin'', ''ethereum'', ''binance'', ''coinbase'', ''metamask'']),
    (''ecommerce'',
      [''shopify'', ''stripe'', ''paypal'', ''square'', ''klarna'', ''razorpay'', ''adyen'']),
    (''productivity'',
      [''notion'', ''obsidian'', ''todoist'', ''trello'', ''asana'', ''monday'',
       ''clickup'', ''airtable'', ''sheets'', ''excel'', ''word'', ''powerpoint'']),
    (''security'',
      [''nordvpn'', ''expressvpn'', ''1password'', ''bitwarden'', ''lastpass''])]"

text \<open>
  The test inside \<open>keywords.some\<close>: the lower-cased name contains the keyword, or the
  keyword contains the lower-cased name.
\<close>

definition keywordMatches :: "string \<Rightarrow> string \<Rightarrow> bool" where
  "keywordMatches nameLower keyword =
     (str_includes nameLower (toLowerCase keyword) \<or> str_includes (toLowerCase keyword) nameLower)"

text \<open>The \<open>for\<close> loop of \<open>categorizeIcon\<close> over the entries of the table.\<close>

fun categorizeLoop :: "(string \<times> string list) list \<Rightarrow> string \<Rightarrow> string" where
  "categorizeLoop [] nameLower = ''other''"
| "categorizeLoop ((category, keywords) # rest) nameLower =
     (if list_ex (keywordMatches nameLower) keywords then category
      else categorizeLoop rest nameLower)"

definition categorizeIcon :: "string \<Rightarrow> string" where
  "categorizeIcon name = categorizeLoop categoryKeywords (toLowerCase name)"

subsection \<open>Base name and variation\<close>

definition variationSuffixes :: "string list" where
  "variationSuffixes = [''-color'', ''-text'', ''-brand'', ''-mono'']"

text \<open>
  \<open>fileName.replace(/-(?:color|text|brand|mono)$/, '')\<close>: the regular expression is tried
  at each position from the left; it matches at a position when the rest of the string
  from there is one of the four suffixes, and the match is replaced by nothing.
\<close>

fun getBaseName :: "string \<Rightarrow> string" where
  "getBaseName [] = []"
| "getBaseName (c # cs) =
     (if c # cs \<in> set variationSuffixes then [] else c # getBaseName cs)"

definition getVariation :: "string \<Rightarrow> string" where
  "getVariation fileName =
     (if endsWith fileName ''-color'' then ''color''
      else if endsWith fileName ''-text'' then ''text''
      else if endsWith fileName ''-brand'' then ''brand''
      else if endsWith fileName ''-mono'' then ''mono''
      else ''default'')"

text \<open>
  \<open>path.parse(file).name\<close> of Node's \<open>path\<close> module, for a directory entry (a name without
  a separator): the name up to its last dot, and the whole name when it has no dot, when
  its only dot is its first character, or when it is \<open>..\<close>.
\<close>

definition lastDot :: "string \<Rightarrow> nat option" where
  "lastDot s =
     (let k = length (takeWhile (\<lambda>c. c \<noteq> CHR ''.'') (rev s))
      in if k = length s then None else Some (length s - 1 - k))"

definition pathParseName :: "string \<Rightarrow> string" where
  "pathParseName file =
     (case lastDot file of
        None \<Rightarrow> file
      | Some i \<Rightarrow> if i = 0 \<or> file = ''..'' then file else take i file)"

text \<open>
  The first three lines of the callback of \<open>svgFiles.map\<close> in \<open>scanIcons\<close>: the identity
  (base name, variation) of a file.
\<close>

definition parseIdentity :: "string \<Rightarrow> string \<times> string" where
  "parseIdentity file =
     (let name = pathParseName file in (getBaseName name, getVariation name))"

subsection \<open>Values and errors\<close>

text \<open>
  The only exception the modelled code raises by itself is a \<open>TypeError\<close>: a method called on a
  value that does not have it, or a spread of a value that is not iterable.
\<close>

datatype error = TypeError

text \<open>
  An object literal inherits from \<open>Object.prototype\<close>, so \<open>obj[key]\<close> finds, besides the
  properties written in the literal, the members of \<open>Object.prototype\<close>. Those are functions
  (and, for \<open>__proto__\<close>, the prototype object itself): truthy values that are not strings.
\<close>

definition objectPrototypeNames :: "string list" where
  "objectPrototypeNames =
     [''constructor'', ''__defineGetter__'', ''__defineSetter__'', ''hasOwnProperty'',
      ''__lookupGetter__'', ''__lookupSetter__'', ''isPrototypeOf'', ''propertyIsEnumerable'',
      ''toString'', ''valueOf'', ''__proto__'', ''toLocaleString'']"

datatype 'a property = Own 'a | Inherited | Absent

definition getProperty :: "(string \<times> 'a) list \<Rightarrow> string \<Rightarrow> 'a property" where
  "getProperty obj key =
     (case map_of obj key of
        Some v \<Rightarrow> Own v
      | None \<Rightarrow> if key \<in> set objectPrototypeNames then Inherited else Absent)"

text \<open>
  A display name is a string, or the member of \<open>Object.prototype\<close> of the given name that a
  lookup in a table of special names returned.
\<close>

datatype jsval = JStr string | JInherited string

text \<open>
  \<open>String(v)\<close>, as \<open>localeCompare\<close> applies it to its argument: the source text of a built-in
  function, and \<open>[object Object]\<close> for the prototype object.
\<close>

definition inheritedFunctionName :: "string \<Rightarrow> string" where
  "inheritedFunctionName key = (if key = ''constructor'' then ''Object'' else key)"

definition jsToString :: "jsval \<Rightarrow> string" where
  "jsToString v =
     (case v of
        JStr s \<Rightarrow> s
      | JInherited key \<Rightarrow>
          if key = ''__proto__'' then ''[object Object]''
          else ''function '' @ inheritedFunctionName key @ ''() { [native code] }'')"

subsection \<open>Display names and tags\<close>

definition specialNames :: "(string \<times> string) list" where
  "specialNames =
     [(''openai'', ''OpenAI''), (''chatgpt'', ''ChatGPT''), (''github'', ''GitHub''),
      (''gitlab'', ''GitLab''), (''vscode'', ''VS Code''), (''nodejs'', ''Node.js''),
      (''nextjs'', ''Next.js''), (''typescript'', ''TypeScript''),
      (''javascript'', ''JavaScript''), (''mongodb'', ''MongoDB''),
      (''postgresql'', ''PostgreSQL''), (''mysql'', ''MySQL''), (''aws'', ''AWS''),
      (''gcp'', ''Google Cloud''), (''ui'', ''UI''), (''api'', ''API''), (''ai'', ''AI''),
      (''ml'', ''ML''), (''ar'', ''AR''), (''vr'', ''VR''), (''iot'', ''IoT''), (''sdk'', ''SDK'')]"

text \<open>\<open>s.split(sep)\<close> for a separator of one character: never the empty list.\<close>

fun splitOn :: "char \<Rightarrow> string \<Rightarrow> string list" where
  "splitOn sep [] = [[]]"
| "splitOn sep (c # cs) =
     (if c = sep then [] # splitOn sep cs
      else (case splitOn sep cs of [] \<Rightarrow> [[c]] | w # ws \<Rightarrow> (c # w) # ws))"

text \<open>\<open>words.join(sep)\<close>.\<close>

fun joinWith :: "string \<Rightarrow> string list \<Rightarrow> string" where
  "joinWith sep [] = []"
| "joinWith sep [w] = w"
| "joinWith sep (w # v # ws) = w @ sep @ joinWith sep (v # ws)"

text \<open>\<open>word.charAt(0).toUpperCase() + word.slice(1).toLowerCase()\<close>.\<close>

definition capitalize :: "string \<Rightarrow> string" where
  "capitalize word = toUpperCase (take 1 word) @ toLowerCase (drop 1 word)"

text \<open>\<open>.replace(/[-_]/g, ' ')\<close> and \<open>.replace(/([A-Z])/g, ' $1')\<close>.\<close>

definition dashesToSpaces :: "string \<Rightarrow> string" where
  "dashesToSpaces s = map (\<lambda>c. if c = CHR ''-'' \<or> c = CHR ''_'' then CHR '' '' else c) s"

definition spaceBeforeCapitals :: "string \<Rightarrow> string" where
  "spaceBeforeCapitals s = concat (map (\<lambda>c. if isUpperChar c then [CHR '' '', c] else [c]) s)"

definition formatDisplayName :: "string \<Rightarrow> jsval" where
  "formatDisplayName name =
     (case getProperty specialNames (toLowerCase name) of
        Own special \<Rightarrow> JStr special
      | Inherited \<Rightarrow> JInherited (toLowerCase name)
      | Absent \<Rightarrow>
          JStr (trim (joinWith '' ''
            (map capitalize (splitOn CHR '' '' (spaceBeforeCapitals (dashesToSpaces name)))))))"

definition alternatives :: "(string \<times> string list) list" where
  "alternatives =
     [(''github'', [''git'', ''version control'']),
      (''docker'', [''container'', ''virtualization'']),
      (''kubernetes'', [''k8s'', ''orchestration'']),
      (''postgresql'', [''postgres'', ''sql'']),
      (''mongodb'', [''mongo'', ''nosql'']),
      (''javascript'', [''js'', ''node'']),
      (''typescript'', [''ts'']),
      (''react'', [''reactjs'']),
      (''vue'', [''vuejs'']),
      (''angular'', [''ng''])]"

text \<open>
  \<open>generateTags\<close>: \<open>baseTags.push(...alternatives[name])\<close> runs when \<open>alternatives[name]\<close> is
  truthy; an inherited member is truthy and not iterable, and the spread raises.
\<close>

definition generateTags :: "string \<Rightarrow> error + string list" where
  "generateTags name =
     (let baseTags = [name];
          category = categorizeIcon name;
          baseTags = baseTags @ [category]
      in case getProperty alternatives name of
           Own alts \<Rightarrow> Inr (baseTags @ alts)
         | Inherited \<Rightarrow> Inl TypeError
         | Absent \<Rightarrow> Inr baseTags)"

definition popular :: "string list" where
  "popular =
     [''github'', ''google'', ''microsoft'', ''apple'', ''amazon'', ''meta'', ''netflix'',
      ''openai'', ''claude'', ''anthropic'', ''gemini'', ''chatgpt'',
      ''aws'', ''azure'', ''googlecloud'', ''docker'', ''kubernetes'',
      ''react'', ''vue'', ''angular'', ''nodejs'', ''python'', ''javascript'',
      ''figma'', ''adobe'', ''vscode'', ''chrome'', ''firefox'',
      ''linkedin'', ''twitter'', ''instagram'', ''youtube'', ''tiktok'',
      ''mongodb'', ''postgresql'', ''redis'', ''elasticsearch'']"

definition isPopularIcon :: "string \<Rightarrow> bool" where
  "isPopularIcon name = (toLowerCase name \<in> set popular)"

subsection \<open>Scanning\<close>

text \<open>The object the callback of \<open>svgFiles.map\<close> returns for one file.\<close>

record icon =
  name :: string
  fileName :: string
  variation :: string
  displayName :: jsval
  category :: string
  path :: string
  tags :: "string list"

text \<open>
  The grouped object \<open>{...icon, variations: [...], paths: {...}}\<close>: the fields of the first
  file seen for the base name, the variations in the order seen, and the path of each
  variation.
\<close>

record entry = icon +
  variations :: "string list"
  paths :: "string \<rightharpoonup> string"

definition iconsDir :: string where
  "iconsDir = ''lobe-icons/packages/static-svg/icons/''"

definition makeIcon :: "string \<Rightarrow> error + icon" where
  "makeIcon file =
     (let name = pathParseName file;
          baseName = getBaseName name;
          variation = getVariation name
      in case generateTags baseName of
           Inl e \<Rightarrow> Inl e
         | Inr ts \<Rightarrow>
             Inr \<lparr>icon.name = baseName, fileName = file, variation = variation,
                  displayName = formatDisplayName baseName,
                  category = categorizeIcon baseName,
                  path = iconsDir @ file, tags = ts\<rparr>)"

text \<open>\<open>xs.map(f)\<close> for a callback that may raise: the first exception ends the map.\<close>

fun mapE :: "('a \<Rightarrow> error + 'b) \<Rightarrow> 'a list \<Rightarrow> error + 'b list" where
  "mapE f [] = Inr []"
| "mapE f (x # xs) =
     (case f x of
        Inl e \<Rightarrow> Inl e
      | Inr y \<Rightarrow> (case mapE f xs of Inl e \<Rightarrow> Inl e | Inr ys \<Rightarrow> Inr (y # ys)))"

text \<open>
  \<open>groupedIcons\<close> is a \<open>Map\<close> from base name to grouped object; it keeps its keys in the
  order of their first insertion, so it is an association list with distinct keys.
\<close>

definition newEntry :: "icon \<Rightarrow> entry" where
  "newEntry i =
     \<lparr>icon.name = icon.name i, fileName = fileName i, variation = variation i,
      displayName = displayName i, category = category i, path = path i, tags = tags i,
      variations = [variation i], paths = [variation i \<mapsto> path i]\<rparr>"

definition addVariation :: "icon \<Rightarrow> entry \<Rightarrow> entry" where
  "addVariation i existing =
     existing\<lparr>variations := variations existing @ [variation i],
              paths := (paths existing)(variation i \<mapsto> path i)\<rparr>"

definition groupStep :: "(string \<times> entry) list \<Rightarrow> icon \<Rightarrow> (string \<times> entry) list" where
  "groupStep groupedIcons i =
     (if map_of groupedIcons (icon.name i) = None
      then groupedIcons @ [(icon.name i, newEntry i)]
      else map (\<lambda>(key, existing).
                  if key = icon.name i then (key, addVariation i existing) else (key, existing))
             groupedIcons)"

text \<open>
  Lines 105--137 of \<open>scanIcons\<close>: one object per file, grouped by base name, and the values
  of the map in insertion order.
\<close>

definition buildCatalog :: "string list \<Rightarrow> error + entry list" where
  "buildCatalog svgFiles =
     (case mapE makeIcon svgFiles of
        Inl e \<Rightarrow> Inl e
      | Inr icons \<Rightarrow> Inr (map snd (foldl groupStep [] icons)))"

subsection \<open>Sorting\<close>

text \<open>
  The comparator given to \<open>finalIcons.sort\<close>. \<open>localeCompare\<close> is the host's collation, a
  parameter \<open>lc\<close> here: negative, zero or positive. It is a method of strings only, so the
  call raises when \<open>a.displayName\<close> is not a string.
\<close>

definition compareIcons ::
  "(string \<Rightarrow> string \<Rightarrow> int) \<Rightarrow> 'a entry_scheme \<Rightarrow> 'a entry_scheme \<Rightarrow> error + int" where
  "compareIcons lc a b =
     (let aPopular = isPopularIcon (icon.name a);
          bPopular = isPopularIcon (icon.name b)
      in if aPopular \<and> \<not> bPopular then Inr (- 1)
         else if \<not> aPopular \<and> bPopular then Inr 1
         else (case displayName a of
                 JStr s \<Rightarrow> Inr (lc s (jsToString (displayName b)))
               | JInherited key \<Rightarrow> Inl TypeError))"

text \<open>
  \<open>Array.prototype.sort\<close> with a comparator is stable; it is modelled as an insertion sort
  that puts each element before the first one it does not compare greater than. The
  language fixes the result when the comparator is a consistent order that does not raise,
  and leaves the sequence of comparator calls to the engine otherwise.
\<close>

fun insertBy :: "('a \<Rightarrow> 'a \<Rightarrow> error + int) \<Rightarrow> 'a \<Rightarrow> 'a list \<Rightarrow> error + 'a list" where
  "insertBy cmp x [] = Inr [x]"
| "insertBy cmp x (y # ys) =
     (case cmp x y of
        Inl e \<Rightarrow> Inl e
      | Inr c \<Rightarrow>
          if c \<le> 0 then Inr (x # y # ys)
          else (case insertBy cmp x ys of Inl e \<Rightarrow> Inl e | Inr zs \<Rightarrow> Inr (y # zs)))"

fun sortBy :: "('a \<Rightarrow> 'a \<Rightarrow> error + int) \<Rightarrow> 'a list \<Rightarrow> error + 'a list" where
  "sortBy cmp [] = Inr []"
| "sortBy cmp (x # xs) =
     (case sortBy cmp xs of Inl e \<Rightarrow> Inl e | Inr ys \<Rightarrow> insertBy cmp x ys)"

definition sortCatalog ::
  "(string \<Rightarrow> string \<Rightarrow> int) \<Rightarrow> entry list \<Rightarrow> error + entry list" where
  "sortCatalog lc finalIcons = sortBy (compareIcons lc) finalIcons"

text \<open>
  \<open>scanIcons\<close>. The directory is missing, or cannot be listed (\<open>readdirSync\<close> raises), or
  lists its entries. Whatever is raised inside the \<open>try\<close> block is caught and \<open>[]\<close> returned.
\<close>

datatype directory = Missing | Unreadable | Listing "string list"

definition scanIcons :: "(string \<Rightarrow> string \<Rightarrow> int) \<Rightarrow> directory \<Rightarrow> entry list" where
  "scanIcons lc dir =
     (case dir of
        Missing \<Rightarrow> []
      | Unreadable \<Rightarrow> []
      | Listing files \<Rightarrow>
          (let svgFiles = filter (\<lambda>file. endsWith file ''.svg'') files
           in case buildCatalog svgFiles of
                Inl e \<Rightarrow> []
              | Inr finalIcons \<Rightarrow>
                  (case sortCatalog lc finalIcons of Inl e \<Rightarrow> [] | Inr sortedIcons \<Rightarrow> sortedIcons)))"

section \<open>The MCP server (class ComposeonMCPServer)\<close>

subsection \<open>Loading\<close>

definition mcpCategories :: "(string \<times> string list) list" where
  "mcpCategories =
     [(''ai'', [''openai'', ''claude'', ''anthropic'', ''gemini'', ''chatglm'', ''deepseek'',
               ''cohere'', ''mistral'']),
      (''cloud'', [''aws'', ''azure'', ''google'', ''googlecloud'', ''microsoft'', ''alibaba'',
                  ''alibabacloud'']),
      (''database'', [''mongodb'', ''postgresql'', ''mysql'', ''redis'', ''elasticsearch'',
                     ''cassandra'']),
      (''design'', [''figma'', ''adobe'', ''sketch'', ''canva'', ''framer'', ''principle'']),
      (''dev'', [''github'', ''gitlab'', ''vscode'', ''cursor'', ''docker'', ''kubernetes'']),
      (''social'', [''linkedin'', ''twitter'', ''facebook'', ''instagram'', ''discord'',
                   ''slack''])]"

text \<open>\<open>name.replace(/-(?:color|text|brand)$/, '')\<close>: the server does not know \<open>-mono\<close>.\<close>

fun mcpBaseName :: "string \<Rightarrow> string" where
  "mcpBaseName [] = []"
| "mcpBaseName (c # cs) =
     (if c # cs \<in> set [''-color'', ''-text'', ''-brand''] then [] else c # mcpBaseName cs)"

fun mcpCategorizeLoop :: "(string \<times> string list) list \<Rightarrow> string \<Rightarrow> string" where
  "mcpCategorizeLoop [] baseName = ''other''"
| "mcpCategorizeLoop ((cat, kws) # rest) baseName =
     (if list_ex (\<lambda>keyword. str_includes baseName keyword) kws then cat
      else mcpCategorizeLoop rest baseName)"

definition mcpCategorizeIcon :: "string \<Rightarrow> string" where
  "mcpCategorizeIcon nm = mcpCategorizeLoop mcpCategories (mcpBaseName nm)"

definition mcpSpecialNames :: "(string \<times> string) list" where
  "mcpSpecialNames =
     [(''openai'', ''OpenAI''), (''chatgpt'', ''ChatGPT''), (''github'', ''GitHub''),
      (''vscode'', ''VS Code''), (''nodejs'', ''Node.js''), (''nextjs'', ''Next.js''),
      (''typescript'', ''TypeScript''), (''javascript'', ''JavaScript'')]"

text \<open>
  \<open>specialNames[baseName] || baseName.charAt(0).toUpperCase() + baseName.slice(1)\<close>: an
  inherited member is truthy and is returned as it is.
\<close>

definition mcpFormatDisplayName :: "string \<Rightarrow> jsval" where
  "mcpFormatDisplayName nm =
     (let baseName = mcpBaseName nm
      in case getProperty mcpSpecialNames baseName of
           Own special \<Rightarrow> JStr special
         | Inherited \<Rightarrow> JInherited baseName
         | Absent \<Rightarrow> JStr (toUpperCase (take 1 baseName) @ drop 1 baseName))"

definition getVariations :: "string \<Rightarrow> string list \<Rightarrow> string list" where
  "getVariations baseName allFiles =
     ''default'' #
     filter (\<lambda>v. baseName @ ''-'' @ v @ ''.svg'' \<in> set allFiles) [''color'', ''text'', ''brand'']"

record mcp_icon =
  name :: string
  category :: string
  filename :: string
  path :: string
  displayName :: jsval
  variations :: "string list"

text \<open>
  \<open>path.join(this.iconBasePath, file)\<close> for a directory entry \<open>file\<close>; \<open>iconBasePath\<close> is the
  absolute path of the icon directory, which depends on where the server is installed.
\<close>

definition pathJoin :: "string \<Rightarrow> string \<Rightarrow> string" where
  "pathJoin iconBasePath file = iconBasePath @ ''/'' @ file"

definition fallbackList :: "string list" where
  "fallbackList =
     [''openai'', ''claude'', ''github'', ''figma'', ''google'', ''microsoft'',
      ''aws'', ''azure'', ''docker'', ''react'', ''nodejs'', ''python'']"

definition getFallbackIcons :: "string \<Rightarrow> mcp_icon list" where
  "getFallbackIcons iconBasePath =
     map (\<lambda>n. \<lparr>mcp_icon.name = n, category = mcpCategorizeIcon n, filename = n @ ''.svg'',
               path = pathJoin iconBasePath (n @ ''.svg''),
               displayName = mcpFormatDisplayName n, variations = [''default'']\<rparr>)
       fallbackList"

text \<open>The object \<open>svgFiles.map\<close> builds for one file in \<open>loadIcons\<close>.\<close>

definition mcpMakeIcon :: "string \<Rightarrow> string list \<Rightarrow> string \<Rightarrow> mcp_icon" where
  "mcpMakeIcon iconBasePath svgFiles file =
     (let n = pathParseName file
      in \<lparr>mcp_icon.name = n, category = mcpCategorizeIcon n, filename = file,
          path = pathJoin iconBasePath file, displayName = mcpFormatDisplayName n,
          variations = getVariations n svgFiles\<rparr>)"

text \<open>\<open>map.set(key, value)\<close> on a \<open>Map\<close>: a new key goes last, a known key keeps its place.\<close>

fun mapSet :: "(string \<times> 'a) list \<Rightarrow> string \<Rightarrow> 'a \<Rightarrow> (string \<times> 'a) list" where
  "mapSet [] key v = [(key, v)]"
| "mapSet ((k, w) # rest) key v =
     (if k = key then (k, v) # rest else (k, w) # mapSet rest key v)"

definition uniqueStep ::
  "string list \<Rightarrow> (string \<times> mcp_icon) list \<Rightarrow> mcp_icon \<Rightarrow> (string \<times> mcp_icon) list" where
  "uniqueStep svgFiles uniqueIcons i =
     (let baseName = mcpBaseName (mcp_icon.name i)
      in if map_of uniqueIcons baseName = None \<or> mcp_icon.name i = baseName
         then mapSet uniqueIcons baseName
                (i\<lparr>mcp_icon.name := baseName, variations := getVariations baseName svgFiles\<rparr>)
         else uniqueIcons)"

text \<open>
  \<open>loadIcons\<close>: the value of \<open>this.icons\<close> afterwards. When \<open>readdir\<close> rejects (the directory
  is missing or cannot be read) the \<open>catch\<close> block installs the fallback icons.
\<close>

definition loadIcons :: "string \<Rightarrow> directory \<Rightarrow> mcp_icon list" where
  "loadIcons iconBasePath dir =
     (case dir of
        Listing files \<Rightarrow>
          (let svgFiles = filter (\<lambda>file. endsWith file ''.svg'') files;
               icons = map (mcpMakeIcon iconBasePath svgFiles) svgFiles
           in map snd (foldl (uniqueStep svgFiles) [] icons))
      | Missing \<Rightarrow> getFallbackIcons iconBasePath
      | Unreadable \<Rightarrow> getFallbackIcons iconBasePath)"

subsection \<open>Searching\<close>

text \<open>
  \<open>xs.slice(0, end)\<close> for an integral \<open>end\<close>: a negative \<open>end\<close> counts from the end of the
  array.
\<close>

definition sliceTo :: "'a list \<Rightarrow> int \<Rightarrow> 'a list" where
  "sliceTo xs end =
     (if end < 0 then take (nat (int (length xs) + end)) xs else take (nat end) xs)"

text \<open>\<open>xs.filter(p)\<close> for a predicate that may raise.\<close>

fun filterE :: "('a \<Rightarrow> error + bool) \<Rightarrow> 'a list \<Rightarrow> error + 'a list" where
  "filterE p [] = Inr []"
| "filterE p (x # xs) =
     (case p x of
        Inl e \<Rightarrow> Inl e
      | Inr b \<Rightarrow>
          (case filterE p xs of
             Inl e \<Rightarrow> Inl e
           | Inr ys \<Rightarrow> Inr (if b then x # ys else ys)))"

text \<open>
  The predicate of the query filter in \<open>searchIcons\<close>. \<open>||\<close> evaluates its right operand only
  when the left one is false, and \<open>toLowerCase\<close> is a method of strings only.
\<close>

definition matchesTerm :: "string \<Rightarrow> mcp_icon \<Rightarrow> error + bool" where
  "matchesTerm searchTerm i =
     (if str_includes (toLowerCase (mcp_icon.name i)) searchTerm then Inr True
      else (case mcp_icon.displayName i of
              JInherited key \<Rightarrow> Inl TypeError
            | JStr d \<Rightarrow>
                Inr (str_includes (toLowerCase d) searchTerm \<or>
                     str_includes (toLowerCase (mcp_icon.category i)) searchTerm)))"

text \<open>
  The two guards of \<open>searchIcons\<close>: \<open>category && category !== 'all'\<close> and
  \<open>query && query.trim()\<close>. An argument that is \<open>null\<close> or \<open>undefined\<close> is \<open>None\<close>; the empty
  string is falsy.
\<close>

definition categoryGiven :: "string option \<Rightarrow> bool" where
  "categoryGiven c = (case c of None \<Rightarrow> False | Some s \<Rightarrow> s \<noteq> [] \<and> s \<noteq> ''all'')"

definition queryGiven :: "string option \<Rightarrow> bool" where
  "queryGiven q = (case q of None \<Rightarrow> False | Some s \<Rightarrow> s \<noteq> [] \<and> trim s \<noteq> [])"

text \<open>\<open>searchIcons(query, category = null, limit = 50)\<close> on the icons \<open>this.icons\<close>.\<close>

definition searchIcons ::
  "mcp_icon list \<Rightarrow> string option \<Rightarrow> string option \<Rightarrow> int option \<Rightarrow> error + mcp_icon list"
  where
  "searchIcons icons query cat limit =
     (let filtered = icons;
          filtered = (if categoryGiven cat
                      then filter (\<lambda>i. mcp_icon.category i = the cat) filtered else filtered);
          lim = (case limit of None \<Rightarrow> 50 | Some l \<Rightarrow> l)
      in if queryGiven query
         then (case filterE (matchesTerm (toLowerCase (the query))) filtered of
                 Inl e \<Rightarrow> Inl e
               | Inr found \<Rightarrow> Inr (sliceTo found lim))
         else Inr (sliceTo filtered lim))"

subsection \<open>Post generation\<close>

text \<open>
  \<open>selectedIcons.map(name => this.icons.find(icon => icon.name === name)).filter(Boolean)\<close>:
  \<open>find\<close> gives the first icon of that name or \<open>undefined\<close>, and the filter drops the
  \<open>undefined\<close>s.
\<close>

definition iconObjects :: "mcp_icon list \<Rightarrow> string list \<Rightarrow> mcp_icon list" where
  "iconObjects icons selectedIcons =
     List.map_filter (\<lambda>n. find (\<lambda>i. mcp_icon.name i = n) icons) selectedIcons"

text \<open>
  \<open>generateLinkedInPost\<close>. The fixed text is a parameter: \<open>bullet\<close> is the mark before each
  display name, \<open>emoji\<close> is \<open>getIconEmoji\<close>, and \<open>templates iconList iconEmojis\<close> is the object
  literal of the four templates filled in. \<open>templates[template] || ...\<close> returns an
  inherited member as it is, and the default text for an unknown template.
\<close>

definition generateLinkedInPost ::
  "string \<Rightarrow> (string \<Rightarrow> string) \<Rightarrow> (string \<Rightarrow> string \<Rightarrow> (string \<times> string) list) \<Rightarrow>
   mcp_icon list \<Rightarrow> string \<Rightarrow> string list \<Rightarrow> jsval" where
  "generateLinkedInPost bullet emoji templates icons template selectedIcons =
     (let objs = iconObjects icons selectedIcons;
          iconList = joinWith [CHR 0x0A]
                       (map (\<lambda>i. bullet @ '' '' @ jsToString (mcp_icon.displayName i)) objs);
          iconEmojis = joinWith '' '' (map (\<lambda>i. emoji (mcp_icon.name i)) objs);
          fallbackText = ''Check out these amazing tools: '' @
             joinWith '', '' (map (\<lambda>i. jsToString (mcp_icon.displayName i)) objs) @ ''!''
      in case getProperty (templates iconList iconEmojis) template of
           Own text \<Rightarrow> if text = [] then JStr fallbackText else JStr text
         | Inherited \<Rightarrow> JInherited template
         | Absent \<Rightarrow> JStr fallbackText)"

section \<open>The icon loader of the web page (class IconsLoader)\<close>

text \<open>
  An icon of the loader. \<open>createIconObject\<close> gives every icon a \<open>searchable\<close> text; an icon
  taken from a manifest that the scanner wrote has none.
\<close>

record loader_icon =
  name :: string
  displayName :: string
  category :: string
  tags :: "string list"
  variations :: "string list"
  path :: string
  paths :: "string \<rightharpoonup> string"
  searchable :: "string option"

text \<open>The \<open>while\<close> loop of \<open>fuzzyMatch\<close>, on what is left of the text and of the pattern.\<close>

fun fuzzyLoop :: "string \<Rightarrow> string \<Rightarrow> bool" where
  "fuzzyLoop textLower [] = True"
| "fuzzyLoop [] (p # ps) = False"
| "fuzzyLoop (t # ts) (p # ps) = (if t = p then fuzzyLoop ts ps else fuzzyLoop ts (p # ps))"

definition fuzzyMatch :: "string \<Rightarrow> string \<Rightarrow> bool" where
  "fuzzyMatch text pattern = fuzzyLoop (toLowerCase text) (toLowerCase pattern)"

definition loaderMatches :: "string \<Rightarrow> loader_icon \<Rightarrow> error + bool" where
  "loaderMatches searchTerm i =
     (case searchable i of
        None \<Rightarrow> Inl TypeError
      | Some text \<Rightarrow>
          Inr (str_includes text searchTerm \<or>
               fuzzyMatch (loader_icon.name i) searchTerm \<or>
               fuzzyMatch (loader_icon.displayName i) searchTerm))"

text \<open>\<open>search(query)\<close>: no filter for a missing, empty or blank query.\<close>

definition search :: "loader_icon list \<Rightarrow> string option \<Rightarrow> error + loader_icon list" where
  "search icons query =
     (if \<not> queryGiven query then Inr icons
      else filterE (loaderMatches (trim (toLowerCase (the query)))) icons)"

definition filterByCategory :: "loader_icon list \<Rightarrow> string option \<Rightarrow> loader_icon list" where
  "filterByCategory icons cat =
     (if cat = Some ''all'' \<or> cat = None \<or> cat = Some []
      then icons
      else filter (\<lambda>i. loader_icon.category i = the cat) icons)"

definition getIconsByNames :: "loader_icon list \<Rightarrow> string list \<Rightarrow> loader_icon list" where
  "getIconsByNames icons names = filter (\<lambda>i. loader_icon.name i \<in> set names) icons"

section \<open>Arrays in a store\<close>

text \<open>
  To state that a read leaves the catalog alone, arrays live in a store: \<open>this.icons\<close> is a
  reference, \<open>filter\<close> and \<open>slice\<close> allocate a new array, and an assignment to an element or
  a \<open>push\<close> would write a cell.
\<close>

type_synonym ref = nat

record 'a store =
  arrays :: "ref \<rightharpoonup> 'a list"
  nextRef :: ref

definition readArray :: "'a store \<Rightarrow> ref \<Rightarrow> 'a list" where
  "readArray s r = (case arrays s r of None \<Rightarrow> [] | Some xs \<Rightarrow> xs)"

definition newArray :: "'a list \<Rightarrow> 'a store \<Rightarrow> ref \<times> 'a store" where
  "newArray xs s = (nextRef s, s\<lparr>arrays := (arrays s)(nextRef s \<mapsto> xs), nextRef := Suc (nextRef s)\<rparr>)"

text \<open>\<open>searchIcons\<close> of the server, with \<open>this.icons\<close> the array at \<open>this\<close>.\<close>

definition searchIconsIn ::
  "mcp_icon store \<Rightarrow> ref \<Rightarrow> string option \<Rightarrow> string option \<Rightarrow> int option \<Rightarrow>
   (error + ref) \<times> mcp_icon store" where
  "searchIconsIn s this query cat limit =
     (let (filtered, s1) =
            (if categoryGiven cat
             then newArray (filter (\<lambda>i. mcp_icon.category i = the cat) (readArray s this)) s
             else (this, s));
          lim = (case limit of None \<Rightarrow> 50 | Some l \<Rightarrow> l)
      in if queryGiven query
         then (case filterE (matchesTerm (toLowerCase (the query))) (readArray s1 filtered) of
                 Inl e \<Rightarrow> (Inl e, s1)
               | Inr found \<Rightarrow>
                   (let (filtered2, s2) = newArray found s1;
                        (res, s3) = newArray (sliceTo (readArray s2 filtered2) lim) s2
                    in (Inr res, s3)))
         else (let (res, s2) = newArray (sliceTo (readArray s1 filtered) lim) s1
               in (Inr res, s2)))"

text \<open>\<open>search\<close> and \<open>filterByCategory\<close> of the loader: without a filter they return \<open>this.icons\<close> itself.\<close>

definition searchIn ::
  "loader_icon store \<Rightarrow> ref \<Rightarrow> string option \<Rightarrow> (error + ref) \<times> loader_icon store" where
  "searchIn s this query =
     (if \<not> queryGiven query then (Inr this, s)
      else (case filterE (loaderMatches (trim (toLowerCase (the query)))) (readArray s this) of
              Inl e \<Rightarrow> (Inl e, s)
            | Inr found \<Rightarrow> (let (res, s1) = newArray found s in (Inr res, s1))))"

definition filterByCategoryIn ::
  "loader_icon store \<Rightarrow> ref \<Rightarrow> string option \<Rightarrow> ref \<times> loader_icon store" where
  "filterByCategoryIn s this cat =
     (if cat = Some ''all'' \<or> cat = None \<or> cat = Some []
      then (this, s)
      else newArray (filter (\<lambda>i. loader_icon.category i = the cat) (readArray s this)) s)"

section \<open>Notions used to state the properties\<close>

text \<open>
  A category's keyword list matches a base name when some keyword occurs in the lower-cased
  base name or the lower-cased base name occurs in some keyword.
\<close>

definition hasKeywordFor :: "string \<Rightarrow> string list \<Rightarrow> bool" where
  "hasKeywordFor b kws =
     (\<exists>k \<in> set kws. sublist k (toLowerCase b) \<or> sublist (toLowerCase b) k)"

text \<open>
  The loop of \<open>categorizeIcon\<close> without the conversion of the keywords, which are all in
  lower case already; it computes the same category and is quicker to evaluate.
\<close>

fun categorizeLoopPlain :: "(string \<times> string list) list \<Rightarrow> string \<Rightarrow> string" where
  "categorizeLoopPlain [] nameLower = ''other''"
| "categorizeLoopPlain ((cat, kws) # rest) nameLower =
     (if list_ex (\<lambda>k. str_includes nameLower k \<or> str_includes k nameLower) kws then cat
      else categorizeLoopPlain rest nameLower)"

text \<open>Each recognised suffix with the variation it stands for.\<close>

definition suffixVariations :: "(string \<times> string) list" where
  "suffixVariations =
     [(''-color'', ''color''), (''-text'', ''text''), (''-brand'', ''brand''), (''-mono'', ''mono'')]"

text \<open>
  A catalog of the server is well formed when every display name is a string, as the
  data model has it.
\<close>

definition allDisplayNamesStrings :: "mcp_icon list \<Rightarrow> bool" where
  "allDisplayNamesStrings icons = (\<forall>i \<in> set icons. \<exists>d. mcp_icon.displayName i = JStr d)"

text \<open>
  The search term occurs in the lower-cased name, display name or category of an icon.
\<close>

definition termIn :: "string \<Rightarrow> mcp_icon \<Rightarrow> bool" where
  "termIn t i =
     (sublist t (toLowerCase (mcp_icon.name i)) \<or>
      sublist t (toLowerCase (jsToString (mcp_icon.displayName i))) \<or>
      sublist t (toLowerCase (mcp_icon.category i)))"

text \<open>Example data.\<close>

definition exampleGithub :: mcp_icon where
  "exampleGithub =
     \<lparr>mcp_icon.name = ''github'', category = ''dev'', filename = ''github.svg'',
      path = ''icons/github.svg'', displayName = JStr ''GitHub'', variations = [''default'']\<rparr>"

definition exampleFigma :: mcp_icon where
  "exampleFigma =
     \<lparr>mcp_icon.name = ''figma'', category = ''design'', filename = ''figma.svg'',
      path = ''icons/figma.svg'', displayName = JStr ''Figma'', variations = [''default'']\<rparr>"

definition exampleLoaderIcon :: loader_icon where
  "exampleLoaderIcon =
     \<lparr>loader_icon.name = ''github'', displayName = ''GitHub'', category = ''dev'',
      tags = [''github'', ''dev'', ''git''], variations = [''default''],
      path = ''icons/github.svg'', paths = [''default'' \<mapsto> ''icons/github.svg''],
      searchable = Some ''github github dev github dev git''\<rparr>"

definition exampleStore :: "mcp_icon store" where
  "exampleStore = \<lparr>arrays = [0 \<mapsto> [exampleFigma, exampleGithub]], nextRef = 1\<rparr>"

definition exampleLoaderStore :: "loader_icon store" where
  "exampleLoaderStore = \<lparr>arrays = [0 \<mapsto> [exampleLoaderIcon]], nextRef = 1\<rparr>"

text \<open>A store extends another when it has the same arrays at every reference allocated before.\<close>

definition unchangedBelow :: "'a store \<Rightarrow> 'a store \<Rightarrow> bool" where
  "unchangedBelow s s' = (nextRef s \<le> nextRef s' \<and> (\<forall>r < nextRef s. arrays s' r = arrays s r))"

text \<open>
  The text of a display name, and catalogs of the scanner whose display names are strings.
\<close>

definition displayText :: "'a entry_scheme \<Rightarrow> string" where
  "displayText e = jsToString (icon.displayName e)"

definition entriesHaveStrings :: "entry list \<Rightarrow> bool" where
  "entriesHaveStrings es = (\<forall>e \<in> set es. \<exists>d. icon.displayName e = JStr d)"

text \<open>
  What is assumed of \<open>localeCompare\<close>: its sign is antisymmetric, and ``not greater'' is
  transitive. Every collation is such a comparison.
\<close>

definition consistentCompare :: "(string \<Rightarrow> string \<Rightarrow> int) \<Rightarrow> bool" where
  "consistentCompare lc =
     ((\<forall>a b. (lc a b < 0) = (0 < lc b a)) \<and>
      (\<forall>a b c. lc a b \<le> 0 \<and> lc b c \<le> 0 \<longrightarrow> lc a c \<le> 0))"

text \<open>
  The comparator of \<open>scanIcons\<close> on entries whose display names are strings, and the
  insertion sort with a comparator that does not raise.
\<close>

definition comparePure :: "(string \<Rightarrow> string \<Rightarrow> int) \<Rightarrow> entry \<Rightarrow> entry \<Rightarrow> int" where
  "comparePure lc a b =
     (if isPopularIcon (icon.name a) \<and> \<not> isPopularIcon (icon.name b) then - 1
      else if \<not> isPopularIcon (icon.name a) \<and> isPopularIcon (icon.name b) then 1
      else lc (displayText a) (displayText b))"

fun insertPure :: "('a \<Rightarrow> 'a \<Rightarrow> int) \<Rightarrow> 'a \<Rightarrow> 'a list \<Rightarrow> 'a list" where
  "insertPure f x [] = [x]"
| "insertPure f x (y # ys) = (if f x y \<le> 0 then x # y # ys else y # insertPure f x ys)"

fun sortPure :: "('a \<Rightarrow> 'a \<Rightarrow> int) \<Rightarrow> 'a list \<Rightarrow> 'a list" where
  "sortPure f [] = []"
| "sortPure f (x # xs) = insertPure f x (sortPure f xs)"

text \<open>
  Two entries have the same rank when both or neither are popular and their display names
  compare equal.
\<close>

definition sameRank :: "(string \<Rightarrow> string \<Rightarrow> int) \<Rightarrow> entry \<Rightarrow> entry \<Rightarrow> bool" where
  "sameRank lc e x =
     (isPopularIcon (icon.name x) = isPopularIcon (icon.name e) \<and>
      lc (displayText x) (displayText e) = 0)"

text \<open>A comparison to try the sort on: strings compared byte by byte.\<close>

fun byteCompare :: "string \<Rightarrow> string \<Rightarrow> int" where
  "byteCompare [] [] = 0"
| "byteCompare [] (y # ys) = - 1"
| "byteCompare (x # xs) [] = 1"
| "byteCompare (x # xs) (y # ys) =
     (if (of_char x :: nat) < of_char y then - 1
      else if (of_char y :: nat) < of_char x then 1
      else byteCompare xs ys)"

text \<open>What the scenario says of an entry: name, set of variations, category, display name.\<close>

definition summary :: "entry \<Rightarrow> string \<times> string set \<times> string \<times> jsval" where
  "summary e = (icon.name e, set (entry.variations e), icon.category e, icon.displayName e)"

text \<open>Example entries of the scanner.\<close>

definition githubEntry :: "string list \<Rightarrow> entry" where
  "githubEntry vs =
     \<lparr>icon.name = ''github'',
      fileName = (if hd vs = ''default'' then ''github.svg'' else ''github-color.svg''),
      variation = hd vs, icon.displayName = JStr ''GitHub'', icon.category = ''dev'',
      icon.path = iconsDir @ (if hd vs = ''default'' then ''github.svg'' else ''github-color.svg''),
      icon.tags = [''github'', ''dev'', ''git'', ''version control''],
      entry.variations = vs,
      entry.paths = [''default'' \<mapsto> iconsDir @ ''github.svg'',
                     ''color'' \<mapsto> iconsDir @ ''github-color.svg'']\<rparr>"

definition figmaEntry :: entry where
  "figmaEntry =
     \<lparr>icon.name = ''figma'', fileName = ''figma.svg'', variation = ''default'',
      icon.displayName = JStr ''Figma'', icon.category = ''design'',
      icon.path = iconsDir @ ''figma.svg'', icon.tags = [''figma'', ''design''],
      entry.variations = [''default''],
      entry.paths = [''default'' \<mapsto> iconsDir @ ''figma.svg'']\<rparr>"

definition zedEntry :: entry where
  "zedEntry =
     \<lparr>icon.name = ''zed'', fileName = ''zed.svg'', variation = ''default'',
      icon.displayName = JStr ''Zed'', icon.category = ''other'',
      icon.path = iconsDir @ ''zed.svg'', icon.tags = [''zed'', ''other''],
      entry.variations = [''default''],
      entry.paths = [''default'' \<mapsto> iconsDir @ ''zed.svg'']\<rparr>"

text \<open>
  The invariant of the grouping \<open>Map\<close>: distinct keys, each entry named by its key and
  holding a path for exactly its variations.
\<close>

definition groupedWell :: "(string \<times> entry) list \<Rightarrow> bool" where
  "groupedWell acc =
     (distinct (map fst acc) \<and>
      (\<forall>k e. map_of acc k = Some e \<longrightarrow>
         icon.name e = k \<and> dom (entry.paths e) = set (entry.variations e)))"

text \<open>
  An entry is popular when its lower-cased name is in the list, which is what
  \<open>isPopularIcon\<close> tests.
\<close>

definition popularFolded :: "'a entry_scheme \<Rightarrow> bool" where
  "popularFolded e = (toLowerCase (icon.name e) \<in> set popular)"

text \<open>The entries of \<open>GitHub.svg\<close> and \<open>abc.svg\<close>.\<close>

definition capitalEntry :: entry where
  "capitalEntry =
     \<lparr>icon.name = ''GitHub'', fileName = ''GitHub.svg'', variation = ''default'',
      icon.displayName = JStr ''GitHub'', icon.category = ''dev'',
      icon.path = iconsDir @ ''GitHub.svg'', icon.tags = [''GitHub'', ''dev''],
      entry.variations = [''default''],
      entry.paths = [''default'' \<mapsto> iconsDir @ ''GitHub.svg'']\<rparr>"

definition abcEntry :: entry where
  "abcEntry =
     \<lparr>icon.name = ''abc'', fileName = ''abc.svg'', variation = ''default'',
      icon.displayName = JStr ''Abc'', icon.category = ''other'',
      icon.path = iconsDir @ ''abc.svg'', icon.tags = [''abc'', ''other''],
      entry.variations = [''default''],
      entry.paths = [''default'' \<mapsto> iconsDir @ ''abc.svg'']\<rparr>"

section \<open>String operations\<close>

lemmas str_defs =
  toLowerCase_def toUpperCase_def lowerChar_def upperChar_def upperLetters_def
  lowerLetters_def isUpperChar_def

lemma startsWith_prefix: "startsWith s k = prefix k s"
  by (induction s k rule: startsWith.induct) auto

lemma str_includes_sublist: "str_includes s k = sublist k s"
  by (induction s) (auto simp: sublist_Cons_right startsWith_prefix)

lemma endsWith_suffix: "endsWith s k = suffix k s"
  unfolding endsWith_def suffix_def
  by (metis append_eq_conv_conj append_take_drop_id diff_add_inverse2 length_append
      length_drop le_add2)

section \<open>Categorisation\<close>

lemma categoryKeywords_lower:
  "\<forall>e \<in> set categoryKeywords. \<forall>k \<in> set (snd e). toLowerCase k = k"
  by code_simp

lemma categorizeLoop_plain:
  "\<forall>e \<in> set T. \<forall>k \<in> set (snd e). toLowerCase k = k \<Longrightarrow>
   categorizeLoop T n = categorizeLoopPlain T n"
proof (induction T n rule: categorizeLoop.induct)
  case (1 n)
  show ?case by simp
next
  case (2 cat kws rest n)
  have "list_ex (keywordMatches n) kws = list_ex (\<lambda>k. str_includes n k \<or> str_includes k n) kws"
    using 2(2) by (auto simp: list_ex_iff keywordMatches_def)
  then show ?case using 2 by simp
qed

lemma categorizeIcon_plain:
  "categorizeIcon b = categorizeLoopPlain categoryKeywords (toLowerCase b)"
  unfolding categorizeIcon_def using categoryKeywords_lower by (rule categorizeLoop_plain)

lemma hasKeywordFor_code:
  "hasKeywordFor b ks =
     list_ex (\<lambda>k. str_includes (toLowerCase b) k \<or> str_includes k (toLowerCase b)) ks"
  by (simp add: hasKeywordFor_def list_ex_iff str_includes_sublist)

lemma categorizeLoopPlain_first:
  "i < length T \<Longrightarrow> hasKeywordFor b (snd (T ! i)) \<Longrightarrow>
   \<forall>j<i. \<not> hasKeywordFor b (snd (T ! j)) \<Longrightarrow>
   categorizeLoopPlain T (toLowerCase b) = fst (T ! i)"
proof (induction T arbitrary: i)
  case Nil
  then show ?case by simp
next
  case (Cons e rest)
  obtain cat kws where e: "e = (cat, kws)" by (cases e)
  show ?case
  proof (cases i)
    case 0
    with Cons.prems e show ?thesis by (simp add: hasKeywordFor_code)
  next
    case (Suc m)
    from Cons.prems(3) Suc e have no: "\<not> hasKeywordFor b kws" by fastforce
    from Cons.prems(3) Suc have later: "\<forall>j<m. \<not> hasKeywordFor b (snd (rest ! j))" by fastforce
    from Cons.prems(1,2) Suc have "m < length rest" "hasKeywordFor b (snd (rest ! m))" by simp_all
    from Cons.IH[OF this later] no Suc e show ?thesis by (simp add: hasKeywordFor_code)
  qed
qed

lemma categorizeLoopPlain_none:
  "\<forall>i<length T. \<not> hasKeywordFor b (snd (T ! i)) \<Longrightarrow>
   categorizeLoopPlain T (toLowerCase b) = ''other''"
proof (induction T)
  case Nil
  then show ?case by simp
next
  case (Cons e rest)
  obtain cat kws where e: "e = (cat, kws)" by (cases e)
  from Cons.prems e have no: "\<not> hasKeywordFor b kws" by fastforce
  from Cons.prems have "\<forall>i<length rest. \<not> hasKeywordFor b (snd (rest ! i))" by fastforce
  from Cons.IH[OF this] no e show ?case by (simp add: hasKeywordFor_code)
qed

lemma categorizeIcon_openai: "categorizeIcon ''openai'' = ''ai''"
  unfolding categorizeIcon_plain by code_simp

lemma categorizeIcon_unknown: "categorizeIcon ''unknownxyz123'' = ''other''"
  unfolding categorizeIcon_plain by code_simp

text \<open>
  C1. \<open>categorizeIcon\<close> lower-cases the base name and returns the first category of the
  table, in its order of declaration, one of whose keywords occurs in the base name or
  contains it; when no category has such a keyword it returns \<open>other\<close>. The category of
  \<open>openai\<close> is \<open>ai\<close> and that of \<open>unknownxyz123\<close> is \<open>other\<close>.
\<close>

theorem categorizeIcon_first_match:
  "(\<forall>i < length categoryKeywords.
      hasKeywordFor b (snd (categoryKeywords ! i)) \<and>
      (\<forall>j<i. \<not> hasKeywordFor b (snd (categoryKeywords ! j)))
      \<longrightarrow> categorizeIcon b = fst (categoryKeywords ! i))
   \<and> ((\<forall>i < length categoryKeywords. \<not> hasKeywordFor b (snd (categoryKeywords ! i)))
      \<longrightarrow> categorizeIcon b = ''other'')
   \<and> categorizeIcon ''openai'' = ''ai''
   \<and> categorizeIcon ''unknownxyz123'' = ''other''"
  using categorizeLoopPlain_first[of _ categoryKeywords b]
    categorizeLoopPlain_none[of categoryKeywords b]
  by (simp add: categorizeIcon_plain[symmetric] categorizeIcon_openai categorizeIcon_unknown)

theorem categorizeIcon_first_match_witness:
  "(2::nat) < length categoryKeywords
   \<and> hasKeywordFor ''GitHub'' (snd (categoryKeywords ! 2))
   \<and> \<not> hasKeywordFor ''GitHub'' (snd (categoryKeywords ! 0))
   \<and> \<not> hasKeywordFor ''GitHub'' (snd (categoryKeywords ! 1))
   \<and> categorizeIcon ''GitHub'' = ''dev''
   \<and> categorizeIcon ''zzz'' = ''other''"
proof -
  have l: "(2::nat) < length categoryKeywords" by (simp add: categoryKeywords_def)
  have a: "hasKeywordFor ''GitHub'' (snd (categoryKeywords ! 2))"
    unfolding hasKeywordFor_code by code_simp
  have b: "\<forall>j<2. \<not> hasKeywordFor ''GitHub'' (snd (categoryKeywords ! j))"
    unfolding hasKeywordFor_code by code_simp
  have c: "\<forall>i < length categoryKeywords. \<not> hasKeywordFor ''zzz'' (snd (categoryKeywords ! i))"
    unfolding hasKeywordFor_code by code_simp
  from categorizeIcon_first_match[of "''GitHub''"] l a b
  have "categorizeIcon ''GitHub'' = fst (categoryKeywords ! 2)" by blast
  moreover have "fst (categoryKeywords ! 2) = ''dev''" by (simp add: categoryKeywords_def)
  moreover from categorizeIcon_first_match[of "''zzz''"] c
  have "categorizeIcon ''zzz'' = ''other''" by blast
  ultimately show ?thesis using l a b by (simp add: numeral_2_eq_2 All_less_Suc)
qed

section \<open>Base name and variation\<close>

lemma getBaseName_no_suffix:
  "\<forall>suf \<in> set variationSuffixes. \<not> suffix suf s \<Longrightarrow> getBaseName s = s"
proof (induction s)
  case Nil
  then show ?case by simp
next
  case (Cons c cs)
  have a: "c # cs \<notin> set variationSuffixes" using Cons.prems by (auto simp: suffix_def)
  have b: "\<forall>suf \<in> set variationSuffixes. \<not> suffix suf cs"
    using Cons.prems by (auto simp: suffix_Cons)
  show ?case using a Cons.IH[OF b] by simp
qed

lemma getBaseName_suffix: "suf \<in> set variationSuffixes \<Longrightarrow> getBaseName (b @ suf) = b"
proof (induction b)
  case Nil
  then show ?case by (auto simp: variationSuffixes_def)
next
  case (Cons c cs)
  have "c # cs @ suf \<notin> set variationSuffixes"
    using Cons.prems by (cases cs; cases "tl cs") (auto simp: variationSuffixes_def)
  then show ?case using Cons by simp
qed

lemma endsWith_append_short: "length k \<le> length suf \<Longrightarrow> endsWith (b @ suf) k = endsWith suf k"
  by (simp add: endsWith_def)

lemma not_endsWith_append:
  "length suf \<le> length k \<Longrightarrow> \<not> endsWith k suf \<Longrightarrow> \<not> endsWith (b @ suf) k"
proof
  assume a: "length suf \<le> length k" "\<not> endsWith k suf" "endsWith (b @ suf) k"
  have "suffix suf (b @ suf)" by (simp add: suffix_def)
  with a(1,3) have "suffix suf k"
    using suffix_length_suffix[of suf "b @ suf" k] by (simp add: endsWith_suffix)
  with a(2) show False by (simp add: endsWith_suffix)
qed

lemma getVariation_suffix:
  "(suf, v) \<in> set suffixVariations \<Longrightarrow> getVariation (b @ suf) = v"
proof -
  assume "(suf, v) \<in> set suffixVariations"
  then consider "suf = ''-color'' \<and> v = ''color''" | "suf = ''-text'' \<and> v = ''text''"
    | "suf = ''-brand'' \<and> v = ''brand''" | "suf = ''-mono'' \<and> v = ''mono''"
    by (auto simp: suffixVariations_def)
  then show ?thesis
  proof cases
    case 1
    then show ?thesis by (simp add: getVariation_def endsWith_append_short) (simp add: endsWith_def)
  next
    case 2
    have "\<not> endsWith (b @ ''-text'') ''-color''"
      by (rule not_endsWith_append) (simp_all add: endsWith_def)
    with 2 show ?thesis by (simp add: getVariation_def endsWith_append_short) (simp add: endsWith_def)
  next
    case 3
    have "\<not> endsWith (b @ ''-brand'') ''-color''"
      by (rule not_endsWith_append) (simp_all add: endsWith_def)
    moreover have "\<not> endsWith ''-brand'' ''-text''" by (simp add: endsWith_def)
    moreover have "endsWith ''-brand'' ''-brand''" by (simp add: endsWith_def)
    ultimately show ?thesis using 3 by (simp add: getVariation_def endsWith_append_short)
  next
    case 4
    have "\<not> endsWith (b @ ''-mono'') ''-color''"
      by (rule not_endsWith_append) (simp_all add: endsWith_def)
    moreover have "\<not> endsWith (b @ ''-mono'') ''-brand''"
      by (rule not_endsWith_append) (simp_all add: endsWith_def)
    moreover have "\<not> endsWith ''-mono'' ''-text''" by (simp add: endsWith_def)
    moreover have "endsWith ''-mono'' ''-mono''" by (simp add: endsWith_def)
    ultimately show ?thesis using 4 by (simp add: getVariation_def endsWith_append_short)
  qed
qed

lemma getVariation_no_suffix:
  "\<forall>suf \<in> set variationSuffixes. \<not> suffix suf s \<Longrightarrow> getVariation s = ''default''"
  by (auto simp: getVariation_def endsWith_suffix variationSuffixes_def)

lemma suffixVariations_fst: "(suf, v) \<in> set suffixVariations \<Longrightarrow> suf \<in> set variationSuffixes"
  by (auto simp: suffixVariations_def variationSuffixes_def)

text \<open>
  C2. When the stem of a file name ends in one of the suffixes \<open>-color\<close>, \<open>-text\<close>, \<open>-brand\<close>,
  \<open>-mono\<close>, the variation is that suffix and the base name is the stem without it; for
  every other file name the variation is \<open>default\<close> and the base name is the stem. The
  suffix is matched at the end of the stem only: the stem \<open>adobe-brandx\<close> has variation
  \<open>default\<close> and is its own base name.
\<close>

theorem parseIdentity_suffix:
  "(\<forall>b suf v. (suf, v) \<in> set suffixVariations \<and> pathParseName f = b @ suf
       \<longrightarrow> parseIdentity f = (b, v))
   \<and> ((\<forall>suf \<in> set variationSuffixes. \<not> suffix suf (pathParseName f))
       \<longrightarrow> parseIdentity f = (pathParseName f, ''default''))
   \<and> parseIdentity ''adobe-brandx.svg'' = (''adobe-brandx'', ''default'')"
proof (intro conjI allI impI)
  fix b suf v
  assume h: "(suf, v) \<in> set suffixVariations \<and> pathParseName f = b @ suf"
  then have "suf \<in> set variationSuffixes" using suffixVariations_fst by blast
  with h show "parseIdentity f = (b, v)"
    by (simp add: parseIdentity_def Let_def getBaseName_suffix getVariation_suffix)
next
  assume "\<forall>suf \<in> set variationSuffixes. \<not> suffix suf (pathParseName f)"
  then show "parseIdentity f = (pathParseName f, ''default'')"
    by (simp add: parseIdentity_def Let_def getBaseName_no_suffix getVariation_no_suffix)
next
  show "parseIdentity ''adobe-brandx.svg'' = (''adobe-brandx'', ''default'')"
    by (simp add: parseIdentity_def pathParseName_def lastDot_def getVariation_def
        endsWith_def variationSuffixes_def)
qed

theorem parseIdentity_suffix_witness:
  "(''-color'', ''color'') \<in> set suffixVariations
   \<and> pathParseName ''openai-color.svg'' = ''openai'' @ ''-color''
   \<and> parseIdentity ''openai-color.svg'' = (''openai'', ''color'')
   \<and> pathParseName ''aws.svg'' = ''aws''
   \<and> parseIdentity ''aws.svg'' = (''aws'', ''default'')"
proof -
  have a: "(''-color'', ''color'') \<in> set suffixVariations" by (simp add: suffixVariations_def)
  have b: "pathParseName ''openai-color.svg'' = ''openai'' @ ''-color''"
    by (simp add: pathParseName_def lastDot_def)
  have c: "pathParseName ''aws.svg'' = ''aws''" by (simp add: pathParseName_def lastDot_def)
  have d: "\<forall>suf \<in> set variationSuffixes. \<not> suffix suf (pathParseName ''aws.svg'')"
    by (simp add: c variationSuffixes_def suffix_def)
  from parseIdentity_suffix[of "''openai-color.svg''"] a b
  have "parseIdentity ''openai-color.svg'' = (''openai'', ''color'')" by blast
  moreover from parseIdentity_suffix[of "''aws.svg''"] d
  have "parseIdentity ''aws.svg'' = (''aws'', ''default'')" by (simp add: c)
  ultimately show ?thesis using a b c by simp
qed

section \<open>Searching\<close>

lemma filterE_subseq: "filterE p xs = Inr ys \<Longrightarrow> subseq ys xs"
  by (induction xs arbitrary: ys) (auto split: sum.splits if_splits)

lemma filterE_total:
  "\<forall>x \<in> set xs. p x = Inr (q x) \<Longrightarrow> filterE p xs = Inr (filter q xs)"
  by (induction xs) auto

lemma subseq_sliceTo: "subseq (sliceTo xs n) xs"
  by (simp add: sliceTo_def prefix_imp_subseq take_is_prefix)

lemma sliceTo_nonneg: "0 \<le> n \<Longrightarrow> sliceTo xs n = take (nat n) xs"
  by (simp add: sliceTo_def)

lemma matchesTerm_string:
  "mcp_icon.displayName i = JStr d \<Longrightarrow> matchesTerm t i = Inr (termIn t i)"
  by (auto simp: matchesTerm_def termIn_def jsToString_def str_includes_sublist)

lemma searchIcons_subseq_aux: "searchIcons icons q c l = Inr r \<Longrightarrow> subseq r icons"
proof -
  assume a: "searchIcons icons q c l = Inr r"
  let ?f = "if categoryGiven c then filter (\<lambda>i. mcp_icon.category i = the c) icons else icons"
  let ?lim = "case l of None \<Rightarrow> 50 | Some n \<Rightarrow> n"
  have f: "subseq ?f icons" by simp
  show ?thesis
  proof (cases "queryGiven q")
    case True
    with a obtain found where fo: "filterE (matchesTerm (toLowerCase (the q))) ?f = Inr found"
      and r: "r = sliceTo found ?lim"
      by (auto simp: searchIcons_def Let_def split: sum.splits)
    from fo have "subseq found ?f" by (rule filterE_subseq)
    from this f have "subseq found icons" by (rule subseq_order.trans)
    with r subseq_sliceTo[of found ?lim] show ?thesis
      by (blast intro: subseq_order.trans)
  next
    case False
    with a have "r = sliceTo ?f ?lim" by (auto simp: searchIcons_def Let_def)
    with f subseq_sliceTo[of ?f ?lim] show ?thesis by (blast intro: subseq_order.trans)
  qed
qed

lemma searchIcons_strings:
  assumes "allDisplayNamesStrings icons"
  shows "searchIcons icons q c l =
     Inr (sliceTo
           (filter (\<lambda>i. queryGiven q \<longrightarrow> termIn (toLowerCase (the q)) i)
             (filter (\<lambda>i. categoryGiven c \<longrightarrow> mcp_icon.category i = the c) icons))
           (case l of None \<Rightarrow> 50 | Some n \<Rightarrow> n))"
proof -
  let ?f = "if categoryGiven c then filter (\<lambda>i. mcp_icon.category i = the c) icons else icons"
  have f: "?f = filter (\<lambda>i. categoryGiven c \<longrightarrow> mcp_icon.category i = the c) icons" by simp
  have "\<forall>i \<in> set ?f. matchesTerm t i = Inr (termIn t i)" for t
    using assms by (auto simp: allDisplayNamesStrings_def matchesTerm_string)
  then have fe: "filterE (matchesTerm t) ?f = Inr (filter (termIn t) ?f)" for t
    by (rule filterE_total)
  show ?thesis
  proof (cases "queryGiven q")
    case True
    then show ?thesis unfolding searchIcons_def Let_def f[symmetric] by (simp add: fe)
  next
    case False
    then show ?thesis unfolding searchIcons_def Let_def f[symmetric] by simp
  qed
qed

lemma search_subseq_aux: "search icons q = Inr r \<Longrightarrow> subseq r icons"
  by (auto simp: search_def dest: filterE_subseq split: if_splits)

lemma queryGiven_empty: "\<not> queryGiven (Some [])"
  by (simp add: queryGiven_def)

lemma categoryGiven_all: "\<not> categoryGiven (Some ''all'')"
  by (simp add: categoryGiven_def)

text \<open>
  C5. What \<open>searchIcons\<close> returns is a subsequence of the catalog: the surviving icons
  in the order the catalog has them, and a catalog whose display names are strings always
  gets a result. With an empty query and category \<open>all\<close> nothing is filtered: the result is
  the first \<open>limit\<close> icons (the first 50 without a limit), the whole catalog when it is
  no longer than that. The loader's \<open>search\<close> returns a subsequence too, and the whole
  catalog for an empty query.
\<close>

theorem searchIcons_subseq:
  "(\<forall>r. searchIcons icons q c l = Inr r \<longrightarrow> subseq r icons)
   \<and> (allDisplayNamesStrings icons \<longrightarrow> (\<exists>r. searchIcons icons q c l = Inr r))
   \<and> searchIcons icons (Some []) (Some ''all'') None = Inr (take 50 icons)
   \<and> (0 \<le> n \<longrightarrow> searchIcons icons (Some []) (Some ''all'') (Some n) = Inr (take (nat n) icons))
   \<and> (length icons \<le> 50 \<longrightarrow> searchIcons icons (Some []) (Some ''all'') (Some 50) = Inr icons)
   \<and> (\<forall>r. search loaderIcons lq = Inr r \<longrightarrow> subseq r loaderIcons)
   \<and> search loaderIcons (Some []) = Inr loaderIcons"
proof (intro conjI allI impI)
  fix r assume "searchIcons icons q c l = Inr r"
  then show "subseq r icons" by (rule searchIcons_subseq_aux)
next
  assume "allDisplayNamesStrings icons"
  then show "\<exists>r. searchIcons icons q c l = Inr r" by (simp add: searchIcons_strings)
next
  show "searchIcons icons (Some []) (Some ''all'') None = Inr (take 50 icons)"
    by (simp add: searchIcons_def queryGiven_empty categoryGiven_all sliceTo_def)
next
  assume "0 \<le> n"
  then show "searchIcons icons (Some []) (Some ''all'') (Some n) = Inr (take (nat n) icons)"
    by (simp add: searchIcons_def queryGiven_empty categoryGiven_all sliceTo_def)
next
  assume "length icons \<le> 50"
  then show "searchIcons icons (Some []) (Some ''all'') (Some 50) = Inr icons"
    by (simp add: searchIcons_def queryGiven_empty categoryGiven_all sliceTo_def)
next
  fix r assume "search loaderIcons lq = Inr r"
  then show "subseq r loaderIcons" by (rule search_subseq_aux)
next
  show "search loaderIcons (Some []) = Inr loaderIcons"
    by (simp add: search_def queryGiven_empty)
qed

lemma example_strings: "allDisplayNamesStrings [exampleFigma, exampleGithub]"
  by (simp add: allDisplayNamesStrings_def exampleFigma_def exampleGithub_def)

lemma searchIcons_example:
  "searchIcons [exampleFigma, exampleGithub] (Some ''GIT'') (Some ''dev'') (Some 10) = Inr [exampleGithub]"
  by (simp add: searchIcons_def categoryGiven_def queryGiven_def trim_def isSpaceChar_def
      matchesTerm_def exampleFigma_def exampleGithub_def sliceTo_def str_defs)

theorem searchIcons_subseq_witness:
  "searchIcons [exampleFigma, exampleGithub] (Some ''GIT'') (Some ''dev'') (Some 10) = Inr [exampleGithub]
   \<and> subseq [exampleGithub] [exampleFigma, exampleGithub]
   \<and> allDisplayNamesStrings [exampleFigma, exampleGithub]
   \<and> searchIcons [exampleFigma, exampleGithub] (Some []) (Some ''all'') (Some 1) = Inr [exampleFigma]
   \<and> searchIcons [exampleFigma, exampleGithub] (Some []) (Some ''all'') (Some 50)
       = Inr [exampleFigma, exampleGithub]
   \<and> search [exampleLoaderIcon] (Some ''gthb'') = Inr [exampleLoaderIcon]
   \<and> subseq [exampleLoaderIcon] [exampleLoaderIcon]"
proof -
  note t = searchIcons_subseq[of "[exampleFigma, exampleGithub]" "Some ''GIT''" "Some ''dev''"
      "Some 10" 1 "[exampleLoaderIcon]" "Some ''gthb''"]
  have l: "search [exampleLoaderIcon] (Some ''gthb'') = Inr [exampleLoaderIcon]"
    by (simp add: search_def queryGiven_def trim_def isSpaceChar_def loaderMatches_def
        exampleLoaderIcon_def fuzzyMatch_def str_defs)
  from t searchIcons_example have "subseq [exampleGithub] [exampleFigma, exampleGithub]" by blast
  moreover from t have "searchIcons [exampleFigma, exampleGithub] (Some []) (Some ''all'') (Some 1)
      = Inr [exampleFigma]" by simp
  moreover from t have "searchIcons [exampleFigma, exampleGithub] (Some []) (Some ''all'') (Some 50)
       = Inr [exampleFigma, exampleGithub]" by simp
  moreover from t l have "subseq [exampleLoaderIcon] [exampleLoaderIcon]" by blast
  ultimately show ?thesis using searchIcons_example example_strings l by simp
qed

text \<open>
  A query of one space is not empty, yet \<open>query.trim()\<close> is, and \<open>searchIcons\<close> skips the
  query filter: it returns \<open>github\<close>, whose name, display name and category have no
  space in them.
\<close>

theorem searchIcons_blank_query_counterexample:
  "searchIcons [exampleFigma, exampleGithub] (Some '' '') (Some ''all'') (Some 10)
     = Inr [exampleFigma, exampleGithub]
   \<and> '' '' \<noteq> []
   \<and> \<not> sublist (toLowerCase '' '') (toLowerCase (mcp_icon.name exampleGithub))
   \<and> \<not> sublist (toLowerCase '' '') (toLowerCase (jsToString (mcp_icon.displayName exampleGithub)))
   \<and> \<not> sublist (toLowerCase '' '') (toLowerCase (mcp_icon.category exampleGithub))"
  by (simp add: searchIcons_def categoryGiven_def queryGiven_def trim_def isSpaceChar_def
      exampleFigma_def exampleGithub_def sliceTo_def str_defs jsToString_def
      str_includes_sublist[symmetric])

text \<open>
  C4 (as amended). On a catalog whose display names are strings, \<open>searchIcons\<close> keeps, when
  a category other than \<open>all\<close> (and not empty) is given, exactly the icons of that
  category; then, when the query has a character that is not white space, exactly the
  icons in whose lower-cased name, display name or category the lower-cased query occurs
  (the icons of the server have no tags); a missing, empty or blank query filters
  nothing. The result is cut by \<open>slice(0, limit)\<close>, \<open>limit\<close> being 50 when not given: at
  most \<open>limit\<close> icons for a \<open>limit\<close> that is not negative.
\<close>

theorem searchIcons_filters:
  "allDisplayNamesStrings icons \<longrightarrow>
     (\<exists>r. searchIcons icons q c l = Inr r
        \<and> r = sliceTo
              (filter (\<lambda>i. queryGiven q \<longrightarrow> termIn (toLowerCase (the q)) i)
                (filter (\<lambda>i. categoryGiven c \<longrightarrow> mcp_icon.category i = the c) icons))
              (case l of None \<Rightarrow> 50 | Some n \<Rightarrow> n)
        \<and> (categoryGiven c \<longrightarrow> (\<forall>i \<in> set r. mcp_icon.category i = the c))
        \<and> (queryGiven q \<longrightarrow> (\<forall>i \<in> set r. termIn (toLowerCase (the q)) i))
        \<and> (l = None \<longrightarrow> length r \<le> 50)
        \<and> (\<forall>n. l = Some n \<and> 0 \<le> n \<longrightarrow> length r \<le> nat n))"
proof
  assume a: "allDisplayNamesStrings icons"
  let ?r = "sliceTo
              (filter (\<lambda>i. queryGiven q \<longrightarrow> termIn (toLowerCase (the q)) i)
                (filter (\<lambda>i. categoryGiven c \<longrightarrow> mcp_icon.category i = the c) icons))
              (case l of None \<Rightarrow> 50 | Some n \<Rightarrow> n)"
  have s: "set (sliceTo xs k) \<subseteq> set xs" for xs :: "mcp_icon list" and k
    by (auto simp: sliceTo_def dest: in_set_takeD)
  have 1: "categoryGiven c \<longrightarrow> (\<forall>i \<in> set ?r. mcp_icon.category i = the c)"
    using s by fastforce
  have 2: "queryGiven q \<longrightarrow> (\<forall>i \<in> set ?r. termIn (toLowerCase (the q)) i)"
    using s by fastforce
  have 3: "l = None \<longrightarrow> length ?r \<le> 50" by (simp add: sliceTo_def)
  have 4: "\<forall>n. l = Some n \<and> 0 \<le> n \<longrightarrow> length ?r \<le> nat n" by (simp add: sliceTo_def)
  from searchIcons_strings[OF a, of q c l] 1 2 3 4
  show "\<exists>r. searchIcons icons q c l = Inr r
        \<and> r = ?r
        \<and> (categoryGiven c \<longrightarrow> (\<forall>i \<in> set r. mcp_icon.category i = the c))
        \<and> (queryGiven q \<longrightarrow> (\<forall>i \<in> set r. termIn (toLowerCase (the q)) i))
        \<and> (l = None \<longrightarrow> length r \<le> 50)
        \<and> (\<forall>n. l = Some n \<and> 0 \<le> n \<longrightarrow> length r \<le> nat n)" by blast
qed

theorem searchIcons_filters_witness:
  "allDisplayNamesStrings [exampleFigma, exampleGithub]
   \<and> categoryGiven (Some ''dev'') \<and> queryGiven (Some ''GIT'')
   \<and> searchIcons [exampleFigma, exampleGithub] (Some ''GIT'') (Some ''dev'') (Some 10) = Inr [exampleGithub]
   \<and> termIn (toLowerCase ''GIT'') exampleGithub
   \<and> mcp_icon.category exampleGithub = ''dev''"
proof -
  have c: "categoryGiven (Some ''dev'')" by (simp add: categoryGiven_def)
  have q: "queryGiven (Some ''GIT'')" by (simp add: queryGiven_def trim_def isSpaceChar_def)
  from searchIcons_filters[of "[exampleFigma, exampleGithub]" "Some ''GIT''" "Some ''dev''" "Some 10"]
    example_strings searchIcons_example c q
  have "termIn (toLowerCase ''GIT'') exampleGithub \<and> mcp_icon.category exampleGithub = ''dev''"
    by auto
  then show ?thesis using example_strings searchIcons_example c q by simp
qed

section \<open>A missing directory\<close>

lemma getFallbackIcons_names: "map mcp_icon.name (getFallbackIcons base) = fallbackList"
  by (simp add: getFallbackIcons_def comp_def)

text \<open>
  \<open>scanIcons\<close> of the scanner has no fallback catalog. A directory that is missing, or
  that cannot be listed, gives the empty catalog, exactly as a directory without \<open>.svg\<close>
  files does, whatever \<open>localeCompare\<close> is.
\<close>

theorem scanIcons_no_fallback:
  "\<forall>lc. scanIcons lc Missing = []
       \<and> scanIcons lc Unreadable = []
       \<and> scanIcons lc (Listing [''README.md'', ''logo.png'']) = []
       \<and> scanIcons lc Missing = scanIcons lc (Listing [])
       \<and> length (scanIcons lc Missing) \<noteq> length fallbackList"
  by (simp add: scanIcons_def buildCatalog_def sortCatalog_def endsWith_def fallbackList_def)

text \<open>
  C7 (as amended). \<open>scanIcons\<close> of the scanner raises nothing and returns the empty catalog
  in all three cases: the icon directory is missing, it cannot be read, or it exists and
  holds no \<open>.svg\<close> file. The scan with a fallback is \<open>loadIcons\<close> of the server: when the
  directory is missing or cannot be read it installs the fallback catalog, the twelve
  hard-coded icons, and raises nothing; when the directory exists and holds no \<open>.svg\<close>
  file, its catalog is empty: no error and not the fallback.
\<close>

theorem scan_missing_directory:
  "scanIcons lc Missing = []
   \<and> scanIcons lc Unreadable = []
   \<and> ((\<forall>file \<in> set files. \<not> endsWith file ''.svg'') \<longrightarrow> scanIcons lc (Listing files) = [])
   \<and> loadIcons base Missing = getFallbackIcons base
   \<and> loadIcons base Unreadable = getFallbackIcons base
   \<and> map mcp_icon.name (getFallbackIcons base) = fallbackList
   \<and> length (getFallbackIcons base) = 12
   \<and> ((\<forall>file \<in> set files. \<not> endsWith file ''.svg'') \<longrightarrow> loadIcons base (Listing files) = [])"
proof -
  have none: "filter (\<lambda>file. endsWith file ''.svg'') files = []"
    if "\<forall>file \<in> set files. \<not> endsWith file ''.svg''"
    using that by (simp add: filter_empty_conv)
  have s1: "scanIcons lc Missing = []" "scanIcons lc Unreadable = []"
    by (simp_all add: scanIcons_def)
  have s2: "(\<forall>file \<in> set files. \<not> endsWith file ''.svg'') \<longrightarrow> scanIcons lc (Listing files) = []"
    using none by (simp add: scanIcons_def buildCatalog_def sortCatalog_def)
  have l1: "loadIcons base Missing = getFallbackIcons base"
    "loadIcons base Unreadable = getFallbackIcons base"
    by (simp_all add: loadIcons_def)
  have l2: "length (getFallbackIcons base) = 12"
    by (simp add: getFallbackIcons_def fallbackList_def)
  have l3: "(\<forall>file \<in> set files. \<not> endsWith file ''.svg'') \<longrightarrow> loadIcons base (Listing files) = []"
    using none by (simp add: loadIcons_def)
  from s1 s2 l1 l2 l3 getFallbackIcons_names[of base] show ?thesis by blast
qed

theorem scan_missing_directory_witness:
  "\<not> endsWith ''README.md'' ''.svg'' \<and> \<not> endsWith ''logo.png'' ''.svg''
   \<and> scanIcons byteCompare (Listing [''README.md'', ''logo.png'']) = []
   \<and> scanIcons byteCompare Missing = []
   \<and> loadIcons ''/srv/icons'' (Listing [''README.md'', ''logo.png'']) = []
   \<and> loadIcons ''/srv/icons'' Missing \<noteq> []"
proof -
  have a: "\<not> endsWith ''README.md'' ''.svg''" "\<not> endsWith ''logo.png'' ''.svg''"
    by (simp_all add: endsWith_def)
  note t = scan_missing_directory[of byteCompare "[''README.md'', ''logo.png'']" "''/srv/icons''"]
  from t a have "scanIcons byteCompare (Listing [''README.md'', ''logo.png'']) = []"
    "loadIcons ''/srv/icons'' (Listing [''README.md'', ''logo.png'']) = []"
    "scanIcons byteCompare Missing = []" by simp_all
  moreover from t have "length (loadIcons ''/srv/icons'' Missing) = 12" by simp
  then have "loadIcons ''/srv/icons'' Missing \<noteq> []" by auto
  ultimately show ?thesis using a by simp
qed

section \<open>Post generation\<close>

lemma find_name: "find (\<lambda>i. mcp_icon.name i = n) icons = Some x \<Longrightarrow> mcp_icon.name x = n \<and> x \<in> set icons"
  by (auto simp: find_Some_iff)

lemma find_name_None: "(find (\<lambda>i. mcp_icon.name i = n) icons = None) = (n \<notin> mcp_icon.name ` set icons)"
  by (auto simp: find_None_iff)

lemma name_present:
  "(n \<in> mcp_icon.name ` set icons) = (find (\<lambda>i. mcp_icon.name i = n) icons \<noteq> None)"
  by (simp add: find_name_None)

lemma iconObjects_present:
  "iconObjects icons names = iconObjects icons (filter (\<lambda>n. n \<in> mcp_icon.name ` set icons) names)"
  unfolding iconObjects_def
  by (induction names) (auto simp: name_present split: option.splits)

lemma iconObjects_names:
  "map mcp_icon.name (iconObjects icons names) = filter (\<lambda>n. n \<in> mcp_icon.name ` set icons) names"
  unfolding iconObjects_def
  by (induction names) (auto simp: name_present dest: find_name split: option.splits)

lemma iconObjects_subset: "set (iconObjects icons names) \<subseteq> set icons"
  unfolding iconObjects_def
  by (induction names) (auto dest: find_name split: option.splits)

text \<open>
  C9. The icons a post is generated from are the catalog icons found for the selected
  names, in the order of the names; a name that is not in the catalog contributes
  nothing and raises nothing, so the post is the one generated from the names that are
  present. The loader's \<open>getIconsByNames\<close> ignores absent names as well.
\<close>

theorem iconObjects_drops_missing:
  "iconObjects icons names = iconObjects icons (filter (\<lambda>n. n \<in> mcp_icon.name ` set icons) names)
   \<and> map mcp_icon.name (iconObjects icons names) = filter (\<lambda>n. n \<in> mcp_icon.name ` set icons) names
   \<and> set (iconObjects icons names) \<subseteq> set icons
   \<and> generateLinkedInPost bullet emoji templates icons template names
       = generateLinkedInPost bullet emoji templates icons template
           (filter (\<lambda>n. n \<in> mcp_icon.name ` set icons) names)
   \<and> getIconsByNames loaderIcons names
       = getIconsByNames loaderIcons (filter (\<lambda>n. n \<in> loader_icon.name ` set loaderIcons) names)
   \<and> iconObjects [exampleFigma, exampleGithub] [''github'', ''missing'', ''figma'']
       = [exampleGithub, exampleFigma]"
proof -
  have "iconObjects [exampleFigma, exampleGithub] [''github'', ''missing'', ''figma'']
       = [exampleGithub, exampleFigma]"
    by (simp add: iconObjects_def List.map_filter_simps exampleFigma_def exampleGithub_def)
  moreover have "getIconsByNames loaderIcons names
       = getIconsByNames loaderIcons (filter (\<lambda>n. n \<in> loader_icon.name ` set loaderIcons) names)"
    unfolding getIconsByNames_def by (rule filter_cong) auto
  moreover have "generateLinkedInPost bullet emoji templates icons template names
       = generateLinkedInPost bullet emoji templates icons template
           (filter (\<lambda>n. n \<in> mcp_icon.name ` set icons) names)"
    unfolding generateLinkedInPost_def using iconObjects_present[of icons names] by simp
  ultimately show ?thesis
    using iconObjects_present[of icons names] iconObjects_names[of icons names]
      iconObjects_subset[of icons names] by blast
qed

section \<open>Reads and the store\<close>

lemma unchangedBelow_refl: "unchangedBelow s s"
  by (simp add: unchangedBelow_def)

lemma unchangedBelow_trans: "unchangedBelow s s1 \<Longrightarrow> unchangedBelow s1 s2 \<Longrightarrow> unchangedBelow s s2"
  by (auto simp: unchangedBelow_def)

lemma newArray_unchanged: "newArray xs s = (r, s') \<Longrightarrow> unchangedBelow s s'"
  by (auto simp: newArray_def unchangedBelow_def)

lemma newArray_read: "newArray xs s = (r, s') \<Longrightarrow> readArray s' r = xs"
  by (auto simp: newArray_def readArray_def)

lemma unchangedBelow_read: "unchangedBelow s s' \<Longrightarrow> r < nextRef s \<Longrightarrow> readArray s' r = readArray s r"
  by (simp add: unchangedBelow_def readArray_def)

lemma searchIconsIn_unchanged: "unchangedBelow s (snd (searchIconsIn s this q c l))"
  unfolding searchIconsIn_def Let_def
  by (auto simp: newArray_def unchangedBelow_def split: sum.splits prod.splits if_splits)

lemma searchIn_unchanged: "unchangedBelow s (snd (searchIn s this q))"
  unfolding searchIn_def Let_def
  by (auto simp: newArray_def unchangedBelow_def split: sum.splits prod.splits if_splits)

lemma filterByCategoryIn_unchanged: "unchangedBelow s (snd (filterByCategoryIn s this c))"
  unfolding filterByCategoryIn_def
  by (auto simp: newArray_def unchangedBelow_def split: sum.splits prod.splits if_splits)

lemma searchIconsIn_result:
  assumes "this < nextRef s"
  shows "(case fst (searchIconsIn s this q c l) of
            Inl e \<Rightarrow> searchIcons (readArray s this) q c l = Inl e
          | Inr res \<Rightarrow> searchIcons (readArray s this) q c l
                        = Inr (readArray (snd (searchIconsIn s this q c l)) res))"
  using assms unfolding searchIconsIn_def searchIcons_def Let_def
  by (auto simp: newArray_def readArray_def split: sum.splits prod.splits if_splits)

text \<open>
  C10. \<open>searchIcons\<close> of the server, and \<open>filterByCategory\<close> and \<open>search\<close> of the loader,
  write no array that existed before the call: afterwards the catalog array holds the
  same icons in the same order, and so does every other array allocated before. The
  result is a new array (or, for the loader without a filter, the catalog array itself)
  holding what the function computes from the catalog.
\<close>

theorem reads_leave_catalog:
  "(this < nextRef s \<longrightarrow>
      readArray (snd (searchIconsIn s this q c l)) this = readArray s this
      \<and> (\<forall>r < nextRef s. arrays (snd (searchIconsIn s this q c l)) r = arrays s r)
      \<and> (case fst (searchIconsIn s this q c l) of
            Inl e \<Rightarrow> searchIcons (readArray s this) q c l = Inl e
          | Inr res \<Rightarrow> searchIcons (readArray s this) q c l
                        = Inr (readArray (snd (searchIconsIn s this q c l)) res)))
   \<and> (lthis < nextRef ls \<longrightarrow>
      readArray (snd (filterByCategoryIn ls lthis lcat)) lthis = readArray ls lthis
      \<and> (\<forall>r < nextRef ls. arrays (snd (filterByCategoryIn ls lthis lcat)) r = arrays ls r)
      \<and> readArray (snd (filterByCategoryIn ls lthis lcat)) (fst (filterByCategoryIn ls lthis lcat))
          = filterByCategory (readArray ls lthis) lcat
      \<and> readArray (snd (searchIn ls lthis lq)) lthis = readArray ls lthis
      \<and> (\<forall>r < nextRef ls. arrays (snd (searchIn ls lthis lq)) r = arrays ls r))"
proof (intro conjI impI)
  assume a: "this < nextRef s"
  from searchIconsIn_unchanged[of s this q c l] a
  show "readArray (snd (searchIconsIn s this q c l)) this = readArray s this"
    by (rule unchangedBelow_read)
  from searchIconsIn_unchanged[of s this q c l]
  show "\<forall>r < nextRef s. arrays (snd (searchIconsIn s this q c l)) r = arrays s r"
    by (simp add: unchangedBelow_def)
  from a show "(case fst (searchIconsIn s this q c l) of
            Inl e \<Rightarrow> searchIcons (readArray s this) q c l = Inl e
          | Inr res \<Rightarrow> searchIcons (readArray s this) q c l
                        = Inr (readArray (snd (searchIconsIn s this q c l)) res))"
    by (rule searchIconsIn_result)
next
  assume a: "lthis < nextRef ls"
  from filterByCategoryIn_unchanged[of ls lthis lcat] a
  show "readArray (snd (filterByCategoryIn ls lthis lcat)) lthis = readArray ls lthis"
    by (rule unchangedBelow_read)
  from filterByCategoryIn_unchanged[of ls lthis lcat]
  show "\<forall>r < nextRef ls. arrays (snd (filterByCategoryIn ls lthis lcat)) r = arrays ls r"
    by (simp add: unchangedBelow_def)
  from a show "readArray (snd (filterByCategoryIn ls lthis lcat)) (fst (filterByCategoryIn ls lthis lcat))
          = filterByCategory (readArray ls lthis) lcat"
    by (auto simp: filterByCategoryIn_def filterByCategory_def newArray_def readArray_def)
  from searchIn_unchanged[of ls lthis lq] a
  show "readArray (snd (searchIn ls lthis lq)) lthis = readArray ls lthis"
    by (rule unchangedBelow_read)
  from searchIn_unchanged[of ls lthis lq]
  show "\<forall>r < nextRef ls. arrays (snd (searchIn ls lthis lq)) r = arrays ls r"
    by (simp add: unchangedBelow_def)
qed

theorem reads_leave_catalog_witness:
  "(0::nat) < nextRef exampleStore
   \<and> readArray exampleStore 0 = [exampleFigma, exampleGithub]
   \<and> readArray (snd (searchIconsIn exampleStore 0 (Some ''GIT'') (Some ''dev'') (Some 10))) 0
       = [exampleFigma, exampleGithub]
   \<and> (0::nat) < nextRef exampleLoaderStore
   \<and> readArray (snd (filterByCategoryIn exampleLoaderStore 0 (Some ''design''))) 0 = [exampleLoaderIcon]
   \<and> readArray (snd (searchIn exampleLoaderStore 0 (Some ''hub''))) 0 = [exampleLoaderIcon]"
proof -
  have a: "(0::nat) < nextRef exampleStore" by (simp add: exampleStore_def)
  have b: "(0::nat) < nextRef exampleLoaderStore" by (simp add: exampleLoaderStore_def)
  have c: "readArray exampleStore 0 = [exampleFigma, exampleGithub]"
    by (simp add: exampleStore_def readArray_def)
  have d: "readArray exampleLoaderStore 0 = [exampleLoaderIcon]"
    by (simp add: exampleLoaderStore_def readArray_def)
  note t = reads_leave_catalog[of 0 exampleStore "Some ''GIT''" "Some ''dev''" "Some 10"
      0 exampleLoaderStore "Some ''design''" "Some ''hub''"]
  show ?thesis using t a b c d by simp
qed

section \<open>Sorting the catalog\<close>

lemma set_insertPure: "set (insertPure f x ys) = insert x (set ys)"
  by (induction ys) auto

lemma mset_insertPure: "mset (insertPure f x ys) = add_mset x (mset ys)"
  by (induction ys) auto

lemma mset_sortPure: "mset (sortPure f xs) = mset xs"
  by (induction xs) (auto simp: mset_insertPure)

lemma set_sortPure: "set (sortPure f xs) = set xs"
  by (metis mset_sortPure set_mset_mset)

lemma insertBy_pure:
  "\<forall>y \<in> set ys. cmp x y = Inr (f x y) \<Longrightarrow> insertBy cmp x ys = Inr (insertPure f x ys)"
  by (induction ys) auto

lemma sortBy_pure:
  "\<forall>x \<in> set xs. \<forall>y \<in> set xs. cmp x y = Inr (f x y) \<Longrightarrow> sortBy cmp xs = Inr (sortPure f xs)"
proof (induction xs)
  case Nil
  show ?case by simp
next
  case (Cons x xs)
  then have "sortBy cmp xs = Inr (sortPure f xs)" by simp
  moreover have "insertBy cmp x (sortPure f xs) = Inr (insertPure f x (sortPure f xs))"
    using Cons.prems by (intro insertBy_pure) (simp add: set_sortPure)
  ultimately show ?case by simp
qed

lemma sorted_insertPure:
  assumes tot: "\<And>a b. 0 < f a b \<Longrightarrow> f b a \<le> 0"
    and trans: "\<And>a b c. f a b \<le> 0 \<Longrightarrow> f b c \<le> 0 \<Longrightarrow> f a c \<le> 0"
  shows "sorted_wrt (\<lambda>a b. f a b \<le> 0) ys \<Longrightarrow> sorted_wrt (\<lambda>a b. f a b \<le> 0) (insertPure f x ys)"
proof (induction ys)
  case Nil
  show ?case by simp
next
  case (Cons y ys)
  show ?case
  proof (cases "f x y \<le> 0")
    case True
    with Cons.prems trans show ?thesis by auto
  next
    case False
    then have "f y x \<le> 0" using tot[of x y] by simp
    with False Cons show ?thesis by (auto simp: set_insertPure)
  qed
qed

lemma sorted_sortPure:
  assumes "\<And>a b. 0 < f a b \<Longrightarrow> f b a \<le> 0"
    and "\<And>a b c. f a b \<le> 0 \<Longrightarrow> f b c \<le> 0 \<Longrightarrow> f a c \<le> 0"
  shows "sorted_wrt (\<lambda>a b. f a b \<le> 0) (sortPure f xs)"
  by (induction xs) (auto intro: sorted_insertPure[OF assms])

lemma filter_insertPure_out: "\<not> P x \<Longrightarrow> filter P (insertPure f x ys) = filter P ys"
  by (induction ys) auto

lemma filter_insertPure_in:
  "P x \<Longrightarrow> (\<And>y. P y \<Longrightarrow> f x y \<le> 0) \<Longrightarrow> filter P (insertPure f x ys) = x # filter P ys"
  by (induction ys) auto

lemma filter_sortPure:
  "(\<And>x y. P x \<Longrightarrow> P y \<Longrightarrow> f x y \<le> 0) \<Longrightarrow> filter P (sortPure f xs) = filter P xs"
  by (induction xs) (auto simp: filter_insertPure_out filter_insertPure_in)

lemma compareIcons_pure:
  "icon.displayName a = JStr d \<Longrightarrow> compareIcons lc a b = Inr (comparePure lc a b)"
  by (simp add: compareIcons_def comparePure_def displayText_def jsToString_def Let_def)

lemma comparePure_total:
  "consistentCompare lc \<Longrightarrow> 0 < comparePure lc a b \<Longrightarrow> comparePure lc b a \<le> 0"
proof -
  assume c: "consistentCompare lc" and p: "0 < comparePure lc a b"
  from c have s: "\<And>x y. (lc x y < 0) = (0 < lc y x)"
    unfolding consistentCompare_def by blast
  show ?thesis using p s[of "displayText b" "displayText a"]
    unfolding comparePure_def by (auto split: if_splits)
qed

lemma comparePure_trans:
  assumes "consistentCompare lc" "comparePure lc a b \<le> 0" "comparePure lc b c \<le> 0"
  shows "comparePure lc a c \<le> 0"
proof -
  from assms(1) have t: "\<And>x y z. lc x y \<le> 0 \<Longrightarrow> lc y z \<le> 0 \<Longrightarrow> lc x z \<le> 0"
    unfolding consistentCompare_def by blast
  show ?thesis using assms(2,3) t[of "displayText a" "displayText b" "displayText c"]
    unfolding comparePure_def by (auto split: if_splits)
qed

lemma sameRank_le:
  assumes "consistentCompare lc" "sameRank lc e x" "sameRank lc e y"
  shows "comparePure lc x y \<le> 0"
proof -
  from assms(1) have t: "\<And>x y z. lc x y \<le> 0 \<Longrightarrow> lc y z \<le> 0 \<Longrightarrow> lc x z \<le> 0"
    and s: "\<And>a b. (lc a b < 0) = (0 < lc b a)"
    unfolding consistentCompare_def by blast+
  from assms(3) have "lc (displayText y) (displayText e) = 0" by (simp add: sameRank_def)
  with s[of "displayText y" "displayText e"] s[of "displayText e" "displayText y"]
  have "lc (displayText e) (displayText y) \<le> 0" by linarith
  moreover from assms(2) have "lc (displayText x) (displayText e) \<le> 0" by (simp add: sameRank_def)
  ultimately have "lc (displayText x) (displayText y) \<le> 0" by (rule t[rotated])
  with assms(2,3) show ?thesis by (simp add: sameRank_def comparePure_def)
qed

lemma sortCatalog_ordered_aux:
  "consistentCompare lc \<and> entriesHaveStrings es \<longrightarrow>
     (\<exists>out. sortCatalog lc es = Inr out
        \<and> mset out = mset es
        \<and> (\<forall>i j. i < j \<and> j < length out \<longrightarrow>
              (isPopularIcon (icon.name (out ! j)) \<longrightarrow> isPopularIcon (icon.name (out ! i)))
              \<and> (isPopularIcon (icon.name (out ! i)) = isPopularIcon (icon.name (out ! j))
                   \<longrightarrow> lc (displayText (out ! i)) (displayText (out ! j)) \<le> 0))
        \<and> (\<forall>e. filter (sameRank lc e) out = filter (sameRank lc e) es))"
proof
  assume a: "consistentCompare lc \<and> entriesHaveStrings es"
  let ?f = "comparePure lc"
  let ?out = "sortPure ?f es"
  from a have "\<forall>x \<in> set es. \<forall>y \<in> set es. compareIcons lc x y = Inr (?f x y)"
    by (auto simp: entriesHaveStrings_def compareIcons_pure)
  then have 1: "sortCatalog lc es = Inr ?out" unfolding sortCatalog_def by (rule sortBy_pure)
  have 2: "mset ?out = mset es" by (rule mset_sortPure)
  have "sorted_wrt (\<lambda>x y. ?f x y \<le> 0) ?out"
    using a comparePure_total[of lc] comparePure_trans[of lc] by (intro sorted_sortPure) blast+
  then have le: "\<And>i j. i < j \<Longrightarrow> j < length ?out \<Longrightarrow> ?f (?out ! i) (?out ! j) \<le> 0"
    by (simp add: sorted_wrt_iff_nth_less)
  have 3: "\<forall>i j. i < j \<and> j < length ?out \<longrightarrow>
              (isPopularIcon (icon.name (?out ! j)) \<longrightarrow> isPopularIcon (icon.name (?out ! i)))
              \<and> (isPopularIcon (icon.name (?out ! i)) = isPopularIcon (icon.name (?out ! j))
                   \<longrightarrow> lc (displayText (?out ! i)) (displayText (?out ! j)) \<le> 0)"
  proof (intro allI impI)
    fix i j assume "i < j \<and> j < length ?out"
    then have "?f (?out ! i) (?out ! j) \<le> 0" using le by blast
    then show "(isPopularIcon (icon.name (?out ! j)) \<longrightarrow> isPopularIcon (icon.name (?out ! i)))
              \<and> (isPopularIcon (icon.name (?out ! i)) = isPopularIcon (icon.name (?out ! j))
                   \<longrightarrow> lc (displayText (?out ! i)) (displayText (?out ! j)) \<le> 0)"
      by (auto simp: comparePure_def split: if_splits)
  qed
  have 4: "\<forall>e. filter (sameRank lc e) ?out = filter (sameRank lc e) es"
    using a sameRank_le[of lc] by (intro allI filter_sortPure) blast
  from 1 2 3 4 show "\<exists>out. sortCatalog lc es = Inr out
        \<and> mset out = mset es
        \<and> (\<forall>i j. i < j \<and> j < length out \<longrightarrow>
              (isPopularIcon (icon.name (out ! j)) \<longrightarrow> isPopularIcon (icon.name (out ! i)))
              \<and> (isPopularIcon (icon.name (out ! i)) = isPopularIcon (icon.name (out ! j))
                   \<longrightarrow> lc (displayText (out ! i)) (displayText (out ! j)) \<le> 0))
        \<and> (\<forall>e. filter (sameRank lc e) out = filter (sameRank lc e) es)" by blast
qed

lemma byteCompare_sym: "(byteCompare a b < 0) = (0 < byteCompare b a)"
  by (induction a b rule: byteCompare.induct) auto

lemma byteCompare_trans: "byteCompare a b \<le> 0 \<Longrightarrow> byteCompare b c \<le> 0 \<Longrightarrow> byteCompare a c \<le> 0"
proof (induction a b arbitrary: c rule: byteCompare.induct)
  case 1
  then show ?case by simp
next
  case (2 y ys)
  then show ?case by (cases c) auto
next
  case (3 x xs)
  then show ?case by simp
next
  case (4 x xs y ys)
  show ?case
  proof (cases c)
    case Nil
    with 4(3) show ?thesis by simp
  next
    case (Cons z zs)
    from 4(2) have xy: "(of_char x :: nat) \<le> of_char y"
      and xy': "(of_char x :: nat) = of_char y \<Longrightarrow> byteCompare xs ys \<le> 0"
      by (simp_all split: if_splits)
    from 4(3) Cons have yz: "(of_char y :: nat) \<le> of_char z"
      and yz': "(of_char y :: nat) = of_char z \<Longrightarrow> byteCompare ys zs \<le> 0"
      by (simp_all split: if_splits)
    show ?thesis
    proof (cases "(of_char x :: nat) < of_char z")
      case True
      with Cons show ?thesis by simp
    next
      case False
      with xy yz have e: "(of_char x :: nat) = of_char y" "(of_char y :: nat) = of_char z"
        by linarith+
      from 4(1)[OF _ _ xy'[OF e(1)] yz'[OF e(2)]] e have "byteCompare xs zs \<le> 0" by simp
      with e Cons show ?thesis by simp
    qed
  qed
qed

lemma consistent_byteCompare: "consistentCompare byteCompare"
  unfolding consistentCompare_def using byteCompare_sym byteCompare_trans by blast

lemma displayName_examples:
  "icon.displayName (githubEntry vs) = JStr ''GitHub''" "icon.displayName figmaEntry = JStr ''Figma''"
  "icon.displayName zedEntry = JStr ''Zed''"
  by (simp_all add: githubEntry_def figmaEntry_def zedEntry_def)

lemma jsToString_JStr: "jsToString (JStr s) = s"
  by (simp add: jsToString_def)

lemma popular_examples:
  "isPopularIcon ''github''" "isPopularIcon ''figma''" "\<not> isPopularIcon ''zed''"
  by (simp_all add: isPopularIcon_def popular_def str_defs)

lemma byteCompare_examples:
  "byteCompare ''GitHub'' ''Figma'' = 1" "byteCompare ''Figma'' ''GitHub'' = - 1"
  by simp_all

lemma entriesHaveStrings_examples:
  "entriesHaveStrings [zedEntry, githubEntry [''default'', ''color''], figmaEntry]"
  by (simp add: entriesHaveStrings_def displayName_examples)

section \<open>Scanning a directory\<close>

lemma categorizeIcon_github: "categorizeIcon ''github'' = ''dev''"
  unfolding categorizeIcon_plain by code_simp

lemma categorizeIcon_figma: "categorizeIcon ''figma'' = ''design''"
  unfolding categorizeIcon_plain by code_simp

lemmas scan_defs =
  makeIcon_def pathParseName_def lastDot_def getVariation_def endsWith_def variationSuffixes_def
  generateTags_def getProperty_def alternatives_def objectPrototypeNames_def
  formatDisplayName_def specialNames_def iconsDir_def Let_def

lemma makeIcon_github:
  "makeIcon ''github.svg'' =
     Inr \<lparr>icon.name = ''github'', fileName = ''github.svg'', variation = ''default'',
          icon.displayName = JStr ''GitHub'', icon.category = ''dev'',
          icon.path = ''lobe-icons/packages/static-svg/icons/github.svg'',
          icon.tags = [''github'', ''dev'', ''git'', ''version control'']\<rparr>"
  by (simp add: scan_defs categorizeIcon_github str_defs)

lemma makeIcon_github_color:
  "makeIcon ''github-color.svg'' =
     Inr \<lparr>icon.name = ''github'', fileName = ''github-color.svg'', variation = ''color'',
          icon.displayName = JStr ''GitHub'', icon.category = ''dev'',
          icon.path = ''lobe-icons/packages/static-svg/icons/github-color.svg'',
          icon.tags = [''github'', ''dev'', ''git'', ''version control'']\<rparr>"
  by (simp add: scan_defs categorizeIcon_github str_defs)

lemma makeIcon_figma:
  "makeIcon ''figma.svg'' =
     Inr \<lparr>icon.name = ''figma'', fileName = ''figma.svg'', variation = ''default'',
          icon.displayName = JStr ''Figma'', icon.category = ''design'',
          icon.path = ''lobe-icons/packages/static-svg/icons/figma.svg'',
          icon.tags = [''figma'', ''design'']\<rparr>"
  by (simp add: scan_defs categorizeIcon_figma str_defs trim_def isSpaceChar_def capitalize_def
      spaceBeforeCapitals_def dashesToSpaces_def)

lemmas group_defs = buildCatalog_def groupStep_def newEntry_def addVariation_def
  githubEntry_def figmaEntry_def iconsDir_def

lemma map_upd_swap: "a \<noteq> b \<Longrightarrow> [a \<mapsto> x, b \<mapsto> y] = [b \<mapsto> y, a \<mapsto> x]"
  by (rule fun_upd_twist)

lemma buildCatalog_gcf:
  "buildCatalog [''github.svg'', ''github-color.svg'', ''figma.svg'']
     = Inr [githubEntry [''default'', ''color''], figmaEntry]"
  by (simp add: makeIcon_github makeIcon_github_color makeIcon_figma group_defs)

lemma buildCatalog_gfc:
  "buildCatalog [''github.svg'', ''figma.svg'', ''github-color.svg'']
     = Inr [githubEntry [''default'', ''color''], figmaEntry]"
  by (simp add: makeIcon_github makeIcon_github_color makeIcon_figma group_defs)

lemma buildCatalog_fgc:
  "buildCatalog [''figma.svg'', ''github.svg'', ''github-color.svg'']
     = Inr [figmaEntry, githubEntry [''default'', ''color'']]"
  by (simp add: makeIcon_github makeIcon_github_color makeIcon_figma group_defs)

lemma buildCatalog_cgf:
  "buildCatalog [''github-color.svg'', ''github.svg'', ''figma.svg'']
     = Inr [githubEntry [''color'', ''default''], figmaEntry]"
  by (simp add: makeIcon_github makeIcon_github_color makeIcon_figma group_defs
      map_upd_swap[of "''color''" "''default''"])

lemma buildCatalog_cfg:
  "buildCatalog [''github-color.svg'', ''figma.svg'', ''github.svg'']
     = Inr [githubEntry [''color'', ''default''], figmaEntry]"
  by (simp add: makeIcon_github makeIcon_github_color makeIcon_figma group_defs
      map_upd_swap[of "''color''" "''default''"])

lemma buildCatalog_fcg:
  "buildCatalog [''figma.svg'', ''github-color.svg'', ''github.svg'']
     = Inr [figmaEntry, githubEntry [''color'', ''default'']]"
  by (simp add: makeIcon_github makeIcon_github_color makeIcon_figma group_defs
      map_upd_swap[of "''color''" "''default''"])

lemma svg_names:
  "endsWith ''github.svg'' ''.svg''" "endsWith ''github-color.svg'' ''.svg''"
  "endsWith ''figma.svg'' ''.svg''"
  by (simp_all add: endsWith_def)

lemma sortCatalog_two:
  "icon.displayName a = JStr da \<Longrightarrow> icon.displayName b = JStr db \<Longrightarrow>
   \<exists>out. sortCatalog lc [a, b] = Inr out \<and> mset out = {#a, b#}"
  by (auto simp: sortCatalog_def compareIcons_def Let_def)

lemma mset_three:
  assumes "mset xs = {#a, b, c#}"
  shows "xs \<in> {[a, b, c], [a, c, b], [b, a, c], [b, c, a], [c, a, b], [c, b, a]}"
proof -
  from assms have "length xs = 3" by (metis size_mset size_add_mset size_empty numeral_3_eq_3)
  then obtain x y z where xs: "xs = [x, y, z]"
    by (metis (no_types) length_0_conv length_Suc_conv numeral_3_eq_3)
  with assms have "{#x, y, z#} = {#a, b, c#}" by simp
  then show ?thesis unfolding xs
    by (auto simp: add_eq_conv_ex)
qed

lemma scan_two:
  assumes "filter (\<lambda>file. endsWith file ''.svg'') files = svg"
    and "buildCatalog svg = Inr [a, b]"
    and "icon.displayName a = JStr da" "icon.displayName b = JStr db"
  shows "mset (map summary (scanIcons lc (Listing files))) = {#summary a, summary b#}"
proof -
  from sortCatalog_two[OF assms(3,4), of lc] obtain out
    where o: "sortCatalog lc [a, b] = Inr out" "mset out = {#a, b#}" by blast
  from assms(1,2) o(1) have "scanIcons lc (Listing files) = out"
    by (simp add: scanIcons_def)
  moreover have "mset (map summary out) = image_mset summary (mset out)" by simp
  ultimately show ?thesis using o(2) by simp
qed

lemma summary_github:
  "set vs = {''default'', ''color''} \<Longrightarrow>
   summary (githubEntry vs) = (''github'', {''default'', ''color''}, ''dev'', JStr ''GitHub'')"
  by (simp add: summary_def githubEntry_def)

lemma summary_figma: "summary figmaEntry = (''figma'', {''default''}, ''design'', JStr ''Figma'')"
  by (simp add: summary_def figmaEntry_def)

lemma scenario_gcf:
  "mset (map summary (scanIcons lc (Listing [''github.svg'', ''github-color.svg'', ''figma.svg''])))
     = {#(''github'', {''default'', ''color''}, ''dev'', JStr ''GitHub''),
         (''figma'', {''default''}, ''design'', JStr ''Figma'')#}"
  using scan_two[OF _ buildCatalog_gcf displayName_examples(1,2), of _ lc]
  by (simp add: svg_names summary_github summary_figma)

lemma scenario_gfc:
  "mset (map summary (scanIcons lc (Listing [''github.svg'', ''figma.svg'', ''github-color.svg''])))
     = {#(''github'', {''default'', ''color''}, ''dev'', JStr ''GitHub''),
         (''figma'', {''default''}, ''design'', JStr ''Figma'')#}"
  using scan_two[OF _ buildCatalog_gfc displayName_examples(1,2), of _ lc]
  by (simp add: svg_names summary_github summary_figma)

lemma scenario_cgf:
  "mset (map summary (scanIcons lc (Listing [''github-color.svg'', ''github.svg'', ''figma.svg''])))
     = {#(''github'', {''default'', ''color''}, ''dev'', JStr ''GitHub''),
         (''figma'', {''default''}, ''design'', JStr ''Figma'')#}"
  using scan_two[OF _ buildCatalog_cgf displayName_examples(1,2), of _ lc]
  by (simp add: svg_names summary_github summary_figma insert_commute)

lemma scenario_cfg:
  "mset (map summary (scanIcons lc (Listing [''github-color.svg'', ''figma.svg'', ''github.svg''])))
     = {#(''github'', {''default'', ''color''}, ''dev'', JStr ''GitHub''),
         (''figma'', {''default''}, ''design'', JStr ''Figma'')#}"
  using scan_two[OF _ buildCatalog_cfg displayName_examples(1,2), of _ lc]
  by (simp add: svg_names summary_github summary_figma insert_commute)

lemma scenario_fgc:
  "mset (map summary (scanIcons lc (Listing [''figma.svg'', ''github.svg'', ''github-color.svg''])))
     = {#(''github'', {''default'', ''color''}, ''dev'', JStr ''GitHub''),
         (''figma'', {''default''}, ''design'', JStr ''Figma'')#}"
  using scan_two[OF _ buildCatalog_fgc displayName_examples(2,1), of _ lc]
  by (simp add: svg_names summary_github summary_figma add_mset_commute)

lemma scenario_fcg:
  "mset (map summary (scanIcons lc (Listing [''figma.svg'', ''github-color.svg'', ''github.svg''])))
     = {#(''github'', {''default'', ''color''}, ''dev'', JStr ''GitHub''),
         (''figma'', {''default''}, ''design'', JStr ''Figma'')#}"
  using scan_two[OF _ buildCatalog_fcg displayName_examples(2,1), of _ lc]
  by (simp add: svg_names summary_github summary_figma insert_commute add_mset_commute)

text \<open>
  C8. A directory that holds exactly \<open>github.svg\<close>, \<open>github-color.svg\<close> and \<open>figma.svg\<close>, listed
  in any order and sorted with any \<open>localeCompare\<close>, is scanned into two entries: \<open>github\<close>
  with variations \<open>default\<close> and \<open>color\<close>, category \<open>dev\<close>, display name \<open>GitHub\<close>, and \<open>figma\<close>
  with variation \<open>default\<close>, category \<open>design\<close>, display name \<open>Figma\<close>.
\<close>

theorem scanIcons_scenario:
  "mset files = {#''github.svg'', ''github-color.svg'', ''figma.svg''#} \<longrightarrow>
     mset (map summary (scanIcons lc (Listing files)))
       = {#(''github'', {''default'', ''color''}, ''dev'', JStr ''GitHub''),
           (''figma'', {''default''}, ''design'', JStr ''Figma'')#}"
proof
  assume "mset files = {#''github.svg'', ''github-color.svg'', ''figma.svg''#}"
  then have "files \<in> {[''github.svg'', ''github-color.svg'', ''figma.svg''],
      [''github.svg'', ''figma.svg'', ''github-color.svg''],
      [''github-color.svg'', ''github.svg'', ''figma.svg''],
      [''github-color.svg'', ''figma.svg'', ''github.svg''],
      [''figma.svg'', ''github.svg'', ''github-color.svg''],
      [''figma.svg'', ''github-color.svg'', ''github.svg'']}"
    by (rule mset_three)
  then have "files = [''github.svg'', ''github-color.svg'', ''figma.svg'']
      \<or> files = [''github.svg'', ''figma.svg'', ''github-color.svg'']
      \<or> files = [''github-color.svg'', ''github.svg'', ''figma.svg'']
      \<or> files = [''github-color.svg'', ''figma.svg'', ''github.svg'']
      \<or> files = [''figma.svg'', ''github.svg'', ''github-color.svg'']
      \<or> files = [''figma.svg'', ''github-color.svg'', ''github.svg'']"
    by (simp only: insert_iff empty_iff simp_thms)
  then show "mset (map summary (scanIcons lc (Listing files)))
       = {#(''github'', {''default'', ''color''}, ''dev'', JStr ''GitHub''),
           (''figma'', {''default''}, ''design'', JStr ''Figma'')#}"
  proof (elim disjE)
    assume "files = [''github.svg'', ''github-color.svg'', ''figma.svg'']"
    then show ?thesis by (simp only: scenario_gcf)
  next
    assume "files = [''github.svg'', ''figma.svg'', ''github-color.svg'']"
    then show ?thesis by (simp only: scenario_gfc)
  next
    assume "files = [''github-color.svg'', ''github.svg'', ''figma.svg'']"
    then show ?thesis by (simp only: scenario_cgf)
  next
    assume "files = [''github-color.svg'', ''figma.svg'', ''github.svg'']"
    then show ?thesis by (simp only: scenario_cfg)
  next
    assume "files = [''figma.svg'', ''github.svg'', ''github-color.svg'']"
    then show ?thesis by (simp only: scenario_fgc)
  next
    assume "files = [''figma.svg'', ''github-color.svg'', ''github.svg'']"
    then show ?thesis by (simp only: scenario_fcg)
  qed
qed

theorem scanIcons_scenario_witness:
  "mset (map summary
      (scanIcons byteCompare (Listing [''github.svg'', ''github-color.svg'', ''figma.svg''])))
     = {#(''github'', {''default'', ''color''}, ''dev'', JStr ''GitHub''),
         (''figma'', {''default''}, ''design'', JStr ''Figma'')#}
   \<and> scanIcons byteCompare (Listing [''github.svg'', ''github-color.svg'', ''figma.svg''])
     = [figmaEntry, githubEntry [''default'', ''color'']]"
proof -
  have "compareIcons byteCompare (githubEntry [''default'', ''color'']) figmaEntry = Inr 1"
    by (simp add: compareIcons_def popular_examples displayName_examples jsToString_JStr
        byteCompare_examples githubEntry_def figmaEntry_def)
  then have "scanIcons byteCompare (Listing [''github.svg'', ''github-color.svg'', ''figma.svg''])
     = [figmaEntry, githubEntry [''default'', ''color'']]"
    by (simp add: scanIcons_def svg_names buildCatalog_gcf sortCatalog_def)
  then show ?thesis
    using scanIcons_scenario[of "[''github.svg'', ''github-color.svg'', ''figma.svg'']" byteCompare]
    by simp
qed

lemma categorizeIcon_aws: "categorizeIcon ''aws'' = ''cloud''"
  unfolding categorizeIcon_plain by code_simp

lemma generateTags_constructor: "generateTags ''constructor'' = Inl TypeError"
  by (simp add: generateTags_def getProperty_def alternatives_def objectPrototypeNames_def Let_def)

text \<open>
  C3, at an input where the code fails it. \<open>constructor\<close> is a member of \<open>Object.prototype\<close>,
  so \<open>alternatives['constructor']\<close> is truthy and its spread raises in \<open>generateTags\<close>; the
  exception ends the scan. The files \<open>aws.svg\<close> and \<open>constructor.svg\<close> have two distinct base
  names, and the catalog has no entry at all.
\<close>

theorem buildCatalog_constructor:
  "buildCatalog [''aws.svg'', ''constructor.svg''] = Inl TypeError
   \<and> scanIcons lc (Listing [''aws.svg'', ''constructor.svg'']) = []
   \<and> parseIdentity ''aws.svg'' = (''aws'', ''default'')
   \<and> parseIdentity ''constructor.svg'' = (''constructor'', ''default'')"
proof -
  have a: "makeIcon ''constructor.svg'' = Inl TypeError"
    by (simp add: makeIcon_def pathParseName_def lastDot_def variationSuffixes_def
        generateTags_constructor Let_def)
  have b: "\<exists>i. makeIcon ''aws.svg'' = Inr i"
    by (simp add: scan_defs categorizeIcon_aws str_defs)
  from a b have c: "buildCatalog [''aws.svg'', ''constructor.svg''] = Inl TypeError"
    by (auto simp: buildCatalog_def)
  have "endsWith ''aws.svg'' ''.svg''" "endsWith ''constructor.svg'' ''.svg''"
    by (simp_all add: endsWith_def)
  with c have "scanIcons lc (Listing [''aws.svg'', ''constructor.svg'']) = []"
    by (simp add: scanIcons_def)
  moreover have "parseIdentity ''aws.svg'' = (''aws'', ''default'')"
    "parseIdentity ''constructor.svg'' = (''constructor'', ''default'')"
    by (simp_all add: parseIdentity_def pathParseName_def lastDot_def getVariation_def
        endsWith_def variationSuffixes_def)
  ultimately show ?thesis using c by simp
qed

subsection \<open>Grouping, away from the inherited names\<close>

text \<open>
  When no base name is a member of \<open>Object.prototype\<close>, the scan raises nothing and the
  grouping is as C3 has it: one entry for each distinct base name, whose variations are
  those of the files of that base name, with a path for each.
\<close>

lemma getProperty_not_inherited:
  "key \<notin> set objectPrototypeNames \<Longrightarrow> getProperty obj key \<noteq> Inherited"
  by (simp add: getProperty_def split: option.splits)

lemma generateTags_ok:
  "b \<notin> set objectPrototypeNames \<Longrightarrow> \<exists>ts. generateTags b = Inr ts"
  using getProperty_not_inherited[of b alternatives]
  by (cases "getProperty alternatives b") (simp_all add: generateTags_def Let_def)

lemma makeIcon_ok:
  "fst (parseIdentity file) \<notin> set objectPrototypeNames \<Longrightarrow> \<exists>i. makeIcon file = Inr i"
  using generateTags_ok[of "getBaseName (pathParseName file)"]
  by (auto simp: makeIcon_def parseIdentity_def Let_def)

lemma makeIcon_fields:
  "makeIcon file = Inr i \<Longrightarrow>
   icon.name i = fst (parseIdentity file) \<and> variation i = snd (parseIdentity file) \<and>
   icon.path i = iconsDir @ file"
  by (auto simp: makeIcon_def parseIdentity_def Let_def split: sum.splits)

lemma mapE_ok:
  "\<forall>x \<in> set xs. \<exists>y. f x = Inr y \<Longrightarrow> \<exists>ys. mapE f xs = Inr ys \<and> list_all2 (\<lambda>x y. f x = Inr y) xs ys"
  by (induction xs) auto

lemma map_of_groupStep:
  "map_of (groupStep acc i) k =
     (if k = icon.name i
      then Some (case map_of acc k of None \<Rightarrow> newEntry i | Some e \<Rightarrow> addVariation i e)
      else map_of acc k)"
proof -
  have m: "map_of (map (\<lambda>(key, existing).
                  if key = n then (key, g existing) else (key, existing)) xs) k
        = (if k = n then map_option g (map_of xs k) else map_of xs k)" for n g and xs :: "(string \<times> entry) list"
    by (induction xs) auto
  show ?thesis
  proof (cases "map_of acc (icon.name i)")
    case None
    then show ?thesis by (auto simp: groupStep_def map_add_def split: option.splits)
  next
    case (Some e)
    then show ?thesis by (auto simp: groupStep_def m)
  qed
qed

lemma keys_groupStep:
  "map fst (groupStep acc i) =
     (if icon.name i \<in> set (map fst acc) then map fst acc else map fst acc @ [icon.name i])"
proof -
  have m: "map fst (map (\<lambda>(key, existing).
                  if key = n then (key, g existing) else (key, existing)) xs) = map fst xs"
    for n g and xs :: "(string \<times> entry) list"
    by (induction xs) auto
  show ?thesis by (auto simp: groupStep_def m map_of_eq_None_iff)
qed

lemma distinct_groupStep: "distinct (map fst acc) \<Longrightarrow> distinct (map fst (groupStep acc i))"
  by (simp add: keys_groupStep)

lemma groupedWell_step: "groupedWell acc \<Longrightarrow> groupedWell (groupStep acc i)"
  unfolding groupedWell_def
  by (auto simp: distinct_groupStep map_of_groupStep newEntry_def addVariation_def
      split: option.splits if_splits)

lemma group_fold:
  "groupedWell acc \<Longrightarrow>
   groupedWell (foldl groupStep acc icons) \<and>
   set (map fst (foldl groupStep acc icons)) = set (map fst acc) \<union> icon.name ` set icons \<and>
   (\<forall>k e. map_of (foldl groupStep acc icons) k = Some e \<longrightarrow>
      set (entry.variations e) =
        (case map_of acc k of None \<Rightarrow> {} | Some e0 \<Rightarrow> set (entry.variations e0)) \<union>
        {variation i | i. i \<in> set icons \<and> icon.name i = k})"
proof (induction icons arbitrary: acc)
  case Nil
  then show ?case by (auto split: option.splits)
next
  case (Cons i icons)
  let ?acc = "groupStep acc i"
  from Cons.prems have w: "groupedWell ?acc" by (rule groupedWell_step)
  note ih = Cons.IH[OF w]
  have keys: "set (map fst ?acc) = insert (icon.name i) (set (map fst acc))"
    by (auto simp: keys_groupStep)
  have vars: "(case map_of ?acc k of None \<Rightarrow> {} | Some e0 \<Rightarrow> set (entry.variations e0))
      = (case map_of acc k of None \<Rightarrow> {} | Some e0 \<Rightarrow> set (entry.variations e0))
        \<union> (if k = icon.name i then {variation i} else {})" for k
    by (auto simp: map_of_groupStep newEntry_def addVariation_def split: option.splits)
  show ?case
  proof (intro conjI allI impI)
    from ih show "groupedWell (foldl groupStep acc (i # icons))" by simp
    from ih keys show "set (map fst (foldl groupStep acc (i # icons)))
        = set (map fst acc) \<union> icon.name ` set (i # icons)" by auto
  next
    fix k e assume "map_of (foldl groupStep acc (i # icons)) k = Some e"
    then have "map_of (foldl groupStep ?acc icons) k = Some e" by simp
    with ih have "set (entry.variations e) =
        (case map_of ?acc k of None \<Rightarrow> {} | Some e0 \<Rightarrow> set (entry.variations e0)) \<union>
        {variation j | j. j \<in> set icons \<and> icon.name j = k}" by blast
    then show "set (entry.variations e) =
        (case map_of acc k of None \<Rightarrow> {} | Some e0 \<Rightarrow> set (entry.variations e0)) \<union>
        {variation j | j. j \<in> set (i # icons) \<and> icon.name j = k}"
      unfolding vars by auto
  qed
qed

lemma buildCatalog_groups:
  assumes "\<forall>file \<in> set svgFiles. fst (parseIdentity file) \<notin> set objectPrototypeNames"
  shows "\<exists>es. buildCatalog svgFiles = Inr es
     \<and> distinct (map icon.name es)
     \<and> set (map icon.name es) = (\<lambda>file. fst (parseIdentity file)) ` set svgFiles
     \<and> (\<forall>e \<in> set es.
           set (entry.variations e)
             = {snd (parseIdentity file) | file. file \<in> set svgFiles
                  \<and> fst (parseIdentity file) = icon.name e}
           \<and> dom (entry.paths e) = set (entry.variations e))"
proof -
  from assms have "\<forall>file \<in> set svgFiles. \<exists>i. makeIcon file = Inr i" by (simp add: makeIcon_ok)
  then obtain icons where m: "mapE makeIcon svgFiles = Inr icons"
    and l: "list_all2 (\<lambda>file i. makeIcon file = Inr i) svgFiles icons"
    using mapE_ok[of svgFiles makeIcon] by blast
  let ?R = "foldl groupStep [] icons"
  have w0: "groupedWell []" by (simp add: groupedWell_def)
  note g = group_fold[OF w0, of icons]
  from g have d: "distinct (map fst ?R)" by (simp add: groupedWell_def)
  have nm: "\<And>k e. (k, e) \<in> set ?R \<Longrightarrow> icon.name e = k \<and> dom (entry.paths e) = set (entry.variations e)
      \<and> set (entry.variations e) = {variation i | i. i \<in> set icons \<and> icon.name i = k}"
  proof -
    fix k e assume "(k, e) \<in> set ?R"
    with d have "map_of ?R k = Some e" by simp
    with g show "icon.name e = k \<and> dom (entry.paths e) = set (entry.variations e)
      \<and> set (entry.variations e) = {variation i | i. i \<in> set icons \<and> icon.name i = k}"
      unfolding groupedWell_def by auto
  qed
  have p: "map (\<lambda>i. (icon.name i, variation i)) icons = map parseIdentity svgFiles"
    using l by (induction rule: list_all2_induct) (auto dest: makeIcon_fields)
  then have ps: "(\<lambda>i. (icon.name i, variation i)) ` set icons = parseIdentity ` set svgFiles"
    by (metis list.set_map)
  have names: "icon.name ` set icons = (\<lambda>file. fst (parseIdentity file)) ` set svgFiles"
  proof -
    have "icon.name ` set icons = fst ` (\<lambda>i. (icon.name i, variation i)) ` set icons"
      by (simp add: image_image)
    also have "\<dots> = fst ` parseIdentity ` set svgFiles" by (simp only: ps)
    finally show ?thesis by (simp add: image_image)
  qed
  have varsets: "{variation i | i. i \<in> set icons \<and> icon.name i = k}
      = {snd (parseIdentity file) | file. file \<in> set svgFiles \<and> fst (parseIdentity file) = k}" for k
  proof -
    have "{variation i | i. i \<in> set icons \<and> icon.name i = k}
        = {v. (k, v) \<in> (\<lambda>i. (icon.name i, variation i)) ` set icons}" by auto
    also have "\<dots> = {v. (k, v) \<in> parseIdentity ` set svgFiles}" by (simp only: ps)
    also have "\<dots> = {snd (parseIdentity file) | file. file \<in> set svgFiles
        \<and> fst (parseIdentity file) = k}"
      by (auto simp: image_iff) (metis fst_conv snd_conv)+
    finally show ?thesis .
  qed
  have e1: "map icon.name (map snd ?R) = map fst ?R"
  proof -
    have "\<forall>x \<in> set ?R. icon.name (snd x) = fst x" using nm by (metis prod.collapse)
    then show ?thesis by simp
  qed
  have "buildCatalog svgFiles = Inr (map snd ?R)" by (simp add: buildCatalog_def m)
  moreover have "distinct (map icon.name (map snd ?R))" using d by (simp only: e1)
  moreover have "set (map icon.name (map snd ?R)) = (\<lambda>file. fst (parseIdentity file)) ` set svgFiles"
    using g names by (simp only: e1) simp
  moreover have "\<forall>e \<in> set (map snd ?R).
           set (entry.variations e)
             = {snd (parseIdentity file) | file. file \<in> set svgFiles
                  \<and> fst (parseIdentity file) = icon.name e}
           \<and> dom (entry.paths e) = set (entry.variations e)"
  proof
    fix e assume "e \<in> set (map snd ?R)"
    then obtain k where "(k, e) \<in> set ?R" by auto
    from nm[OF this] varsets[of k] show "set (entry.variations e)
             = {snd (parseIdentity file) | file. file \<in> set svgFiles
                  \<and> fst (parseIdentity file) = icon.name e}
           \<and> dom (entry.paths e) = set (entry.variations e)" by auto
  qed
  ultimately show ?thesis by blast
qed

lemma buildCatalog_aws:
  "\<exists>e. buildCatalog [''aws.svg'', ''aws-color.svg'', ''aws-text.svg''] = Inr [e]
     \<and> icon.name e = ''aws''
     \<and> set (entry.variations e) = {''default'', ''color'', ''text''}"
proof -
  have "\<exists>i. makeIcon ''aws.svg'' = Inr i \<and> icon.name i = ''aws'' \<and> variation i = ''default''"
    "\<exists>i. makeIcon ''aws-color.svg'' = Inr i \<and> icon.name i = ''aws'' \<and> variation i = ''color''"
    "\<exists>i. makeIcon ''aws-text.svg'' = Inr i \<and> icon.name i = ''aws'' \<and> variation i = ''text''"
    by (simp_all add: scan_defs categorizeIcon_aws str_defs)
  then show ?thesis
    by (auto simp: buildCatalog_def groupStep_def newEntry_def addVariation_def)
qed

section \<open>The order of the catalog\<close>

lemma categorizeIcon_GitHub: "categorizeIcon ''GitHub'' = ''dev''"
  unfolding categorizeIcon_plain by code_simp

lemma categorizeIcon_abc: "categorizeIcon ''abc'' = ''other''"
  unfolding categorizeIcon_plain by code_simp

lemma buildCatalog_abc_GitHub:
  "buildCatalog [''abc.svg'', ''GitHub.svg''] = Inr [abcEntry, capitalEntry]"
proof -
  have "makeIcon ''abc.svg'' =
     Inr \<lparr>icon.name = ''abc'', fileName = ''abc.svg'', variation = ''default'',
          icon.displayName = JStr ''Abc'', icon.category = ''other'',
          icon.path = iconsDir @ ''abc.svg'', icon.tags = [''abc'', ''other'']\<rparr>"
    by (simp add: scan_defs categorizeIcon_abc str_defs trim_def isSpaceChar_def capitalize_def
      spaceBeforeCapitals_def dashesToSpaces_def)
  moreover have "makeIcon ''GitHub.svg'' =
     Inr \<lparr>icon.name = ''GitHub'', fileName = ''GitHub.svg'', variation = ''default'',
          icon.displayName = JStr ''GitHub'', icon.category = ''dev'',
          icon.path = iconsDir @ ''GitHub.svg'', icon.tags = [''GitHub'', ''dev'']\<rparr>"
    by (simp add: scan_defs categorizeIcon_GitHub str_defs)
  ultimately show ?thesis
    by (simp add: buildCatalog_def groupStep_def newEntry_def abcEntry_def capitalEntry_def)
qed

text \<open>
  \<open>GitHub\<close> is not in the list of popular names, which are all in lower case, and neither
  is \<open>abc\<close>; \<open>Abc\<close> comes before \<open>GitHub\<close>; yet the scan puts \<open>GitHub\<close> first, because
  \<open>isPopularIcon\<close> looks for the lower-cased name.
\<close>

theorem sortCatalog_capital_counterexample:
  "scanIcons byteCompare (Listing [''abc.svg'', ''GitHub.svg'']) = [capitalEntry, abcEntry]
   \<and> icon.name capitalEntry = ''GitHub'' \<and> ''GitHub'' \<notin> set popular
   \<and> icon.name abcEntry = ''abc'' \<and> ''abc'' \<notin> set popular
   \<and> icon.displayName capitalEntry = JStr ''GitHub''
   \<and> icon.displayName abcEntry = JStr ''Abc''
   \<and> byteCompare ''Abc'' ''GitHub'' < 0"
proof -
  have p: "isPopularIcon ''GitHub''" "\<not> isPopularIcon ''abc''"
    by (simp_all add: isPopularIcon_def popular_def str_defs)
  have "compareIcons byteCompare abcEntry capitalEntry = Inr 1"
    by (simp add: compareIcons_def capitalEntry_def abcEntry_def p)
  moreover have "endsWith ''abc.svg'' ''.svg''" "endsWith ''GitHub.svg'' ''.svg''"
    by (simp_all add: endsWith_def)
  ultimately have "scanIcons byteCompare (Listing [''abc.svg'', ''GitHub.svg''])
      = [capitalEntry, abcEntry]"
    by (simp add: scanIcons_def buildCatalog_abc_GitHub sortCatalog_def)
  then show ?thesis by (simp add: capitalEntry_def abcEntry_def popular_def)
qed

lemma isPopularIcon_folded: "isPopularIcon (icon.name e) = popularFolded e"
  by (simp add: isPopularIcon_def popularFolded_def)

text \<open>
  C6 (as amended). Given that \<open>localeCompare\<close> is a consistent comparison and the display
  names are strings, \<open>sortCatalog\<close> returns a permutation of the entries in which every
  entry whose lower-cased base name is in the list of popular names comes before every
  entry whose lower-cased base name is not, and entries of the same partition are in the
  order of \<open>localeCompare\<close> on their display names. The sort is stable: entries of the same
  partition whose display names compare equal keep their order of insertion. The order
  is total: of any two entries, one does not compare greater than the other.
\<close>

theorem sortCatalog_ordered:
  "consistentCompare lc \<and> entriesHaveStrings es \<longrightarrow>
     (\<exists>out. sortCatalog lc es = Inr out
        \<and> mset out = mset es
        \<and> (\<forall>i j. i < j \<and> j < length out \<longrightarrow>
              (popularFolded (out ! j) \<longrightarrow> popularFolded (out ! i))
              \<and> (popularFolded (out ! i) = popularFolded (out ! j)
                   \<longrightarrow> lc (displayText (out ! i)) (displayText (out ! j)) \<le> 0))
        \<and> (\<forall>e :: entry. filter (\<lambda>x. popularFolded x = popularFolded e
                          \<and> lc (displayText x) (displayText e) = 0) out
               = filter (\<lambda>x. popularFolded x = popularFolded e
                          \<and> lc (displayText x) (displayText e) = 0) es)
        \<and> (\<forall>a \<in> set es. \<forall>b \<in> set es. \<exists>c d.
              compareIcons lc a b = Inr c \<and> compareIcons lc b a = Inr d \<and> (c \<le> 0 \<or> d \<le> 0)))"
proof
  assume a: "consistentCompare lc \<and> entriesHaveStrings es"
  have tot: "\<forall>x \<in> set es. \<forall>y \<in> set es. \<exists>c d.
              compareIcons lc x y = Inr c \<and> compareIcons lc y x = Inr d \<and> (c \<le> 0 \<or> d \<le> 0)"
  proof (intro ballI)
    fix x y assume "x \<in> set es" "y \<in> set es"
    with a have "compareIcons lc x y = Inr (comparePure lc x y)"
      "compareIcons lc y x = Inr (comparePure lc y x)"
      by (auto simp: entriesHaveStrings_def compareIcons_pure)
    moreover have "comparePure lc x y \<le> 0 \<or> comparePure lc y x \<le> 0"
      using a comparePure_total[of lc x y] by linarith
    ultimately show "\<exists>c d. compareIcons lc x y = Inr c \<and> compareIcons lc y x = Inr d
        \<and> (c \<le> 0 \<or> d \<le> 0)" by blast
  qed
  from a sortCatalog_ordered_aux[of lc es] obtain out where o: "sortCatalog lc es = Inr out"
    "mset out = mset es"
    "\<forall>i j. i < j \<and> j < length out \<longrightarrow>
              (isPopularIcon (icon.name (out ! j)) \<longrightarrow> isPopularIcon (icon.name (out ! i)))
              \<and> (isPopularIcon (icon.name (out ! i)) = isPopularIcon (icon.name (out ! j))
                   \<longrightarrow> lc (displayText (out ! i)) (displayText (out ! j)) \<le> 0)"
    "\<forall>e. filter (sameRank lc e) out = filter (sameRank lc e) es"
    by blast
  have r: "sameRank lc e = (\<lambda>x. popularFolded x = popularFolded e
                          \<and> lc (displayText x) (displayText e) = 0)" for e :: entry
    by (rule ext) (simp add: sameRank_def isPopularIcon_folded)
  have 3: "\<forall>i j. i < j \<and> j < length out \<longrightarrow>
              (popularFolded (out ! j) \<longrightarrow> popularFolded (out ! i))
              \<and> (popularFolded (out ! i) = popularFolded (out ! j)
                   \<longrightarrow> lc (displayText (out ! i)) (displayText (out ! j)) \<le> 0)"
    using o(3) unfolding isPopularIcon_folded .
  have 4: "\<forall>e :: entry. filter (\<lambda>x. popularFolded x = popularFolded e
                          \<and> lc (displayText x) (displayText e) = 0) out
               = filter (\<lambda>x. popularFolded x = popularFolded e
                          \<and> lc (displayText x) (displayText e) = 0) es"
    using o(4) unfolding r .
  have "sortCatalog lc es = Inr out
        \<and> mset out = mset es
        \<and> (\<forall>i j. i < j \<and> j < length out \<longrightarrow>
              (popularFolded (out ! j) \<longrightarrow> popularFolded (out ! i))
              \<and> (popularFolded (out ! i) = popularFolded (out ! j)
                   \<longrightarrow> lc (displayText (out ! i)) (displayText (out ! j)) \<le> 0))
        \<and> (\<forall>e :: entry. filter (\<lambda>x. popularFolded x = popularFolded e
                          \<and> lc (displayText x) (displayText e) = 0) out
               = filter (\<lambda>x. popularFolded x = popularFolded e
                          \<and> lc (displayText x) (displayText e) = 0) es)
        \<and> (\<forall>a \<in> set es. \<forall>b \<in> set es. \<exists>c d.
              compareIcons lc a b = Inr c \<and> compareIcons lc b a = Inr d \<and> (c \<le> 0 \<or> d \<le> 0))"
    by (intro conjI; (rule o(1) o(2) 3 4 tot))
  then show "\<exists>out. sortCatalog lc es = Inr out
        \<and> mset out = mset es
        \<and> (\<forall>i j. i < j \<and> j < length out \<longrightarrow>
              (popularFolded (out ! j) \<longrightarrow> popularFolded (out ! i))
              \<and> (popularFolded (out ! i) = popularFolded (out ! j)
                   \<longrightarrow> lc (displayText (out ! i)) (displayText (out ! j)) \<le> 0))
        \<and> (\<forall>e :: entry. filter (\<lambda>x. popularFolded x = popularFolded e
                          \<and> lc (displayText x) (displayText e) = 0) out
               = filter (\<lambda>x. popularFolded x = popularFolded e
                          \<and> lc (displayText x) (displayText e) = 0) es)
        \<and> (\<forall>a \<in> set es. \<forall>b \<in> set es. \<exists>c d.
              compareIcons lc a b = Inr c \<and> compareIcons lc b a = Inr d \<and> (c \<le> 0 \<or> d \<le> 0))"
    by (rule exI[where x = out])
qed

theorem sortCatalog_ordered_witness:
  "consistentCompare byteCompare
   \<and> entriesHaveStrings [zedEntry, githubEntry [''default'', ''color''], figmaEntry]
   \<and> sortCatalog byteCompare [zedEntry, githubEntry [''default'', ''color''], figmaEntry]
       = Inr [figmaEntry, githubEntry [''default'', ''color''], zedEntry]
   \<and> (\<exists>out. sortCatalog byteCompare [zedEntry, githubEntry [''default'', ''color''], figmaEntry]
          = Inr out
        \<and> mset out = mset [zedEntry, githubEntry [''default'', ''color''], figmaEntry])"
proof -
  have n: "icon.name zedEntry = ''zed''" "icon.name figmaEntry = ''figma''"
    "icon.name (githubEntry [''default'', ''color'']) = ''github''"
    by (simp_all add: zedEntry_def figmaEntry_def githubEntry_def)
  have c: "compareIcons byteCompare (githubEntry [''default'', ''color'']) figmaEntry = Inr 1"
    "compareIcons byteCompare zedEntry figmaEntry = Inr 1"
    "compareIcons byteCompare zedEntry (githubEntry [''default'', ''color'']) = Inr 1"
    by (simp_all add: compareIcons_def n popular_examples displayName_examples
        jsToString_JStr byteCompare_examples)
  have s: "sortCatalog byteCompare [zedEntry, githubEntry [''default'', ''color''], figmaEntry]
       = Inr [figmaEntry, githubEntry [''default'', ''color''], zedEntry]"
    by (simp add: sortCatalog_def c)
  from sortCatalog_ordered[of byteCompare "[zedEntry, githubEntry [''default'', ''color''], figmaEntry]"]
    consistent_byteCompare entriesHaveStrings_examples
  have "\<exists>out. sortCatalog byteCompare [zedEntry, githubEntry [''default'', ''color''], figmaEntry]
          = Inr out
        \<and> mset out = mset [zedEntry, githubEntry [''default'', ''color''], figmaEntry]"
    by blast
  then show ?thesis using consistent_byteCompare entriesHaveStrings_examples s by blast
qed

end
